theory Spec2Isabelle
  imports Complex_Main "HOL-Library.Sublist"
begin

section \<open>Numeric values\<close>

text \<open>
  The scripts compute on float64 arrays. A value is modelled as an exact real number, and
  the one special float the code's behaviour depends on, NaN (which pandas also uses for a
  missing entry), as \<open>None\<close>. Rounding is not modelled, except in the one place where
  it decides a branch: the standard deviation the filter's guard reads is a parameter.
  Timestamps are whole seconds since 1970-01-01 UTC, as \<open>time_to_float\<close> produces
  them (an integer floor division by one second).
\<close>

type_synonym fval = "real option"

text \<open>Comparison of two floats: any comparison with NaN is false.\<close>

definition fgt :: "fval \<Rightarrow> fval \<Rightarrow> bool" where
  "fgt a b = (case (a, b) of (Some x, Some y) \<Rightarrow> y < x | _ \<Rightarrow> False)"

text \<open>
  Python's builtin \<open>max(a, b)\<close> keeps \<open>a\<close> unless \<open>b > a\<close>, so a NaN first argument
  is returned and a NaN second argument is ignored.
\<close>

definition py_max :: "fval \<Rightarrow> fval \<Rightarrow> fval" where
  "py_max a b = (if fgt b a then b else a)"

section \<open>Errors\<close>

text \<open>
  The exceptions raised in \<open>calculate_k_index\<close>: KeyError for \<open>s[0]\<close> on a pandas
  Series that has no row labelled 0, IndexError for a boolean mask whose length differs
  from the indexed array's, ValueError for a reduction (\<open>np.ptp\<close>) over an empty array.
\<close>

datatype error = KeyError | IndexError | ValueError

text \<open>\<open>np.ptp\<close>: maximum minus minimum of an array; NaN as soon as one entry is NaN.\<close>

definition np_ptp :: "fval list \<Rightarrow> error + fval" where
  "np_ptp xs =
     (if xs = [] then Inl ValueError
      else case those xs of None \<Rightarrow> Inr None
           | Some vs \<Rightarrow> Inr (Some (Max (set vs) - Min (set vs))))"

text \<open>\<open>arr[mask]\<close> with a boolean mask: the entries where the mask is true.\<close>

definition bool_index :: "'a list \<Rightarrow> bool list \<Rightarrow> error + 'a list" where
  "bool_index arr mask' =
     (if length mask' \<noteq> length arr then Inl IndexError
      else Inr (map fst (filter snd (zip arr mask'))))"

section \<open>Quality filter (\<open>preprocess_data\<close>)\<close>

text \<open>
  A row of the data frame: its timestamp and, under each component label, a float. A
  label the row has no column for reads as NaN, which is how \<open>pd.concat\<close> fills the
  columns one of the concatenated files lacks.
\<close>

record sample =
  DATETIME :: int
  cell :: "string \<Rightarrow> fval"

text \<open>\<open>data[c]\<close>: one column of the frame.\<close>

definition column :: "string \<Rightarrow> sample list \<Rightarrow> fval list" where
  "column c data = map (\<lambda>r. cell r c) data"

text \<open>The entries of a column that are not NaN, which is what \<open>skipna\<close> and \<open>omit\<close> keep.\<close>

fun present :: "fval list \<Rightarrow> real list" where
  "present [] = []"
| "present (None # x) = present x"
| "present (Some v # x) = v # present x"

definition mean :: "real list \<Rightarrow> real" where
  "mean vs = sum_list vs / real (length vs)"

definition sum_sq_dev :: "real list \<Rightarrow> real" where
  "sum_sq_dev vs = (\<Sum>v\<leftarrow>vs. (v - mean vs)\<^sup>2)"

text \<open>
  The population variance of the entries present: what the properties below call the
  variance of a component across the batch. It is 0 for a column with fewer than two
  entries present.
\<close>

definition variance :: "fval list \<Rightarrow> real" where
  "variance x = sum_sq_dev (present x) / real (length (present x))"

text \<open>
  \<open>x.std(skipna=True)\<close>: the sample standard deviation (one degree of freedom removed)
  of the entries present; NaN when fewer than two are.
\<close>

definition series_std :: "fval list \<Rightarrow> fval" where
  "series_std x =
     (let vs = present x
      in if length vs < 2 then None
         else Some (sqrt (sum_sq_dev vs / real (length vs - 1))))"

text \<open>
  \<open>zscore(x, nan_policy='omit')\<close>: each entry minus the mean of the entries present,
  divided by their population standard deviation; a NaN entry stays NaN, and so does
  the quotient 0 / 0 of a column without spread.
\<close>

definition zscore :: "fval list \<Rightarrow> fval list" where
  "zscore x =
     (let vs = present x;
          mn = mean vs;
          sd = sqrt (sum_sq_dev vs / real (length vs))
      in map (\<lambda>e. case e of None \<Rightarrow> None
                    | Some v \<Rightarrow> if sd = 0 then None else Some ((v - mn) / sd)) x)"

definition zeros_like :: "fval list \<Rightarrow> fval list" where
  "zeros_like x = map (\<lambda>_. Some 0) x"

text \<open>
  The function \<open>apply\<close> runs on every column. Its guard compares the standard
  deviation pandas computes in float64, and rounding decides it on a column without
  spread: the computed mean of ten times 36000.1 is one unit in the last place below
  36000.1 and the computed deviation is 7.67e-12, not 0. The computed deviation is
  therefore a parameter \<open>std\<close> of the filter, and \<open>series_std\<close> is its value in exact
  arithmetic. \<open>zscore\<close> itself returns NaN on a constant column by an exact test.
\<close>

definition z_score_column_with :: "(fval list \<Rightarrow> fval) \<Rightarrow> fval list \<Rightarrow> fval list" where
  "z_score_column_with std x = (if fgt (std x) (Some 0) then zscore x else zeros_like x)"

definition z_score_column :: "fval list \<Rightarrow> fval list" where
  "z_score_column x = z_score_column_with series_std x"

text \<open>\<open>np.abs(z) <= 2.5\<close>, false for NaN.\<close>

definition score_ok :: "fval \<Rightarrow> bool" where
  "score_ok z = (case z of None \<Rightarrow> False | Some r \<Rightarrow> \<bar>r\<bar> \<le> 2.5)"

text \<open>\<open>(np.abs(z_scores) <= 2.5).all(axis=1)\<close>: one boolean per row.\<close>

definition valid_mask_with ::
  "(fval list \<Rightarrow> fval) \<Rightarrow> sample list \<Rightarrow> string list \<Rightarrow> bool list"
where
  "valid_mask_with std data components =
     (let numeric_data = map (\<lambda>c. column c data) components;
          z_scores = map (z_score_column_with std) numeric_data
      in map (\<lambda>i. list_all (\<lambda>z. score_ok (z ! i)) z_scores) [0..<length data])"

definition valid_mask :: "sample list \<Rightarrow> string list \<Rightarrow> bool list" where
  "valid_mask data components = valid_mask_with series_std data components"

text \<open>
  The component columns are float columns, so \<open>select_dtypes\<close> keeps all of them and
  \<open>numeric_data\<close> is empty only when no component is selected. The mask has one entry
  per row, so \<open>data[valid_mask]\<close> cannot fail.
\<close>

definition preprocess_data_with ::
  "(fval list \<Rightarrow> fval) \<Rightarrow> sample list \<Rightarrow> string list \<Rightarrow> sample list"
where
  "preprocess_data_with std data components =
     (if data = [] then data
      else if components \<noteq> []
        then map fst (filter snd (zip data (valid_mask_with std data components)))
      else data)"

definition preprocess_data :: "sample list \<Rightarrow> string list \<Rightarrow> sample list" where
  "preprocess_data data components = preprocess_data_with series_std data components"

text \<open>
  The same on a frame whose rows carry their labels: \<open>data[valid_mask]\<close> keeps the
  label of every row it keeps.
\<close>

definition preprocess_frame_with ::
  "(fval list \<Rightarrow> fval) \<Rightarrow> (int \<times> sample) list \<Rightarrow> string list \<Rightarrow> (int \<times> sample) list"
where
  "preprocess_frame_with std frame components =
     (if frame = [] then frame
      else if components \<noteq> []
        then map fst (filter snd (zip frame (valid_mask_with std (map snd frame) components)))
      else frame)"

section \<open>K-index quantizer (\<open>calculate_k_index\<close>, last five lines)\<close>

definition niemegk_thresholds :: "real list" where
  "niemegk_thresholds = [0, 5, 10, 20, 40, 70, 120, 200, 330, 500]"

definition scaled_thresholds :: "real \<Rightarrow> real list" where
  "scaled_thresholds k9 = map (\<lambda>t. t * k9 / 500) niemegk_thresholds"

text \<open>
  \<open>np.searchsorted(a, v, side='right')\<close> on an ascending array \<open>a\<close>: the index of the
  first element greater than \<open>v\<close>, and \<open>len(a)\<close> for a NaN key (NaN sorts last). The
  threshold array is ascending for every \<open>k9 \<ge> 0\<close>; numpy leaves the result on an
  unsorted array unspecified, so a negative \<open>k9\<close> is outside this model.
\<close>

definition searchsorted_right :: "real list \<Rightarrow> fval \<Rightarrow> nat" where
  "searchsorted_right a v =
     (case v of None \<Rightarrow> length a | Some x \<Rightarrow> length (takeWhile (\<lambda>t. t \<le> x) a))"

text \<open>\<open>np.clip(x, lo, hi)\<close> is \<open>minimum(maximum(x, lo), hi)\<close>.\<close>

definition clip :: "int \<Rightarrow> int \<Rightarrow> int \<Rightarrow> int" where
  "clip x lo hi = min (max x lo) hi"

definition k_value :: "real \<Rightarrow> fval \<Rightarrow> real" where
  "k_value k9 variation =
     (let k_values_index = int (searchsorted_right (scaled_thresholds k9) variation) - 1;
          k = real_of_int (clip k_values_index 0 9)
      in if k = 0 then 0.25 else k)"

section \<open>Window aggregator (\<open>calculate_k_index\<close>, up to the loop over blocks)\<close>

text \<open>
  \<open>datetime.fromtimestamp(t, tz=utc)\<close>, rebuilt from its year, month and day alone and
  measured from 1970-01-01 UTC by \<open>total_seconds()\<close>: midnight UTC of the calendar day
  that contains \<open>t\<close>. UTC days are exactly 86400 POSIX seconds long. The timestamps
  come from pandas datetimes and so lie inside the years \<open>datetime\<close> can represent.
\<close>

definition start_of_day_utc :: "int \<Rightarrow> int" where
  "start_of_day_utc t = 86400 * (t div 86400)"

text \<open>
  Both scripts pass \<open>time_to_float(all_data["DATETIME"])\<close> for \<open>minute_time_float\<close>: a
  pandas Series, the seconds of every row under the integer label the row has in the
  frame. \<open>pd.concat(..., ignore_index=True)\<close> labels the rows 0, 1, 2, ... in the order
  the files were read, and the filter and \<open>sort_values\<close> keep each row's label. On such
  a Series \<open>s[0]\<close> looks up the label 0, not the first position. Labels are distinct.
\<close>

type_synonym series = "(int \<times> int) list"

definition series_at_label :: "series \<Rightarrow> int \<Rightarrow> error + int" where
  "series_at_label s label =
     (case map_of s label of None \<Rightarrow> Inl KeyError | Some v \<Rightarrow> Inr v)"

definition day_seconds_start_utc :: "series \<Rightarrow> error + int" where
  "day_seconds_start_utc minute_time_float =
     (case series_at_label minute_time_float 0 of
        Inl e \<Rightarrow> Inl e
      | Inr first \<Rightarrow> Inr (start_of_day_utc first))"

definition hour_blocks :: "int \<Rightarrow> int list \<Rightarrow> int list" where
  "hour_blocks day minute_time_float = map (\<lambda>t. (t - day) div 10800) minute_time_float"

text \<open>\<open>np.unique\<close>: the distinct values in ascending order.\<close>

definition np_unique :: "int list \<Rightarrow> int list" where
  "np_unique xs = sort (remdups xs)"

text \<open>The body of the loop for one block: the disturbance statistic of the block.\<close>

definition variation :: "int list \<Rightarrow> fval list \<Rightarrow> fval list \<Rightarrow> int \<Rightarrow> error + fval" where
  "variation blocks minute_comp_x minute_comp_y block_idx =
     (let mask' = map (\<lambda>h. h = block_idx) blocks in
      if 1 < length (filter id mask') then
        (case bool_index minute_comp_x mask' of Inl e \<Rightarrow> Inl e | Inr sel_x \<Rightarrow>
         case np_ptp sel_x of Inl e \<Rightarrow> Inl e | Inr range_x \<Rightarrow>
         case bool_index minute_comp_y mask' of Inl e \<Rightarrow> Inl e | Inr sel_y \<Rightarrow>
         case np_ptp sel_y of Inl e \<Rightarrow> Inl e | Inr range_y \<Rightarrow>
           Inr (py_max range_x range_y))
      else Inr (Some 0))"

text \<open>
  The loop over the unique blocks, appending to \<open>variations\<close> and
  \<open>timestamps_float\<close>; an exception in one iteration ends the loop.
\<close>

fun block_loop ::
  "int \<Rightarrow> int list \<Rightarrow> fval list \<Rightarrow> fval list \<Rightarrow> int list \<Rightarrow> error + (fval list \<times> int list)"
where
  "block_loop day blocks xs ys [] = Inr ([], [])"
| "block_loop day blocks xs ys (block_idx # rest) =
     (case variation blocks xs ys block_idx of
        Inl e \<Rightarrow> Inl e
      | Inr v \<Rightarrow>
          (case block_loop day blocks xs ys rest of
             Inl e \<Rightarrow> Inl e
           | Inr (variations, timestamps) \<Rightarrow>
               Inr (v # variations, (day + block_idx * 10800 + 5400) # timestamps)))"

text \<open>The statistics and window midpoints the loop leaves behind, before quantization.\<close>

definition window_statistics ::
  "series \<Rightarrow> fval list \<Rightarrow> fval list \<Rightarrow> error + (fval list \<times> int list)"
where
  "window_statistics minute_time_float minute_comp_x minute_comp_y =
     (case day_seconds_start_utc minute_time_float of
        Inl e \<Rightarrow> Inl e
      | Inr day \<Rightarrow>
          (let blocks = hour_blocks day (map snd minute_time_float)
           in block_loop day blocks minute_comp_x minute_comp_y (np_unique blocks)))"

definition calculate_k_index ::
  "series \<Rightarrow> fval list \<Rightarrow> fval list \<Rightarrow> real \<Rightarrow> error + (real list \<times> int list)"
where
  "calculate_k_index minute_time_float minute_comp_x minute_comp_y k9 =
     (if length minute_time_float = 0 then Inr ([], [])
      else case window_statistics minute_time_float minute_comp_x minute_comp_y of
             Inl e \<Rightarrow> Inl e
           | Inr (variations, timestamps_float) \<Rightarrow>
               Inr (map (k_value k9) variations, timestamps_float))"

section \<open>One cycle of \<open>main_loop\<close>, from the concatenated frame to the K-indices\<close>

text \<open>
  \<open>all_data\<close> is the concatenation of the parsed files in the order \<open>get_ftp_files\<close>
  lists them, the newest day first, its rows labelled by position. \<open>test.py\<close> filters,
  sorts by \<open>DATETIME\<close>, and passes the times as a Series and the first two components
  as plain arrays. The components are a triplet, so \<open>components[0]\<close> and
  \<open>components[1]\<close> exist. \<open>std\<close> is the computed deviation the filter's guard reads.
\<close>

definition labelled :: "sample list \<Rightarrow> (int \<times> sample) list" where
  "labelled all_data = zip (map int [0..<length all_data]) all_data"

definition time_to_float :: "(int \<times> sample) list \<Rightarrow> series" where
  "time_to_float frame = map (\<lambda>(label, row). (label, DATETIME row)) frame"

definition k_index_cycle_test ::
  "(fval list \<Rightarrow> fval) \<Rightarrow> sample list \<Rightarrow> string list \<Rightarrow> real \<Rightarrow> error + (real list \<times> int list)"
where
  "k_index_cycle_test std all_data components k9 =
     (let filtered = preprocess_frame_with std (labelled all_data) components;
          sorted_data = sort_key (\<lambda>(label, row). DATETIME row) filtered;
          times_float = time_to_float sorted_data;
          comp_x = map (\<lambda>(label, row). cell row (components ! 0)) sorted_data;
          comp_y = map (\<lambda>(label, row). cell row (components ! 1)) sorted_data
      in calculate_k_index times_float comp_x comp_y k9)"

text \<open>\<open>ENT_Kindex.py\<close> does the same without sorting.\<close>

definition k_index_cycle_ENT_Kindex ::
  "(fval list \<Rightarrow> fval) \<Rightarrow> sample list \<Rightarrow> string list \<Rightarrow> real \<Rightarrow> error + (real list \<times> int list)"
where
  "k_index_cycle_ENT_Kindex std all_data components k9 =
     (let filtered = preprocess_frame_with std (labelled all_data) components;
          times_float = time_to_float filtered;
          comp_x = map (\<lambda>(label, row). cell row (components ! 0)) filtered;
          comp_y = map (\<lambda>(label, row). cell row (components ! 1)) filtered
      in calculate_k_index times_float comp_x comp_y k9)"

section \<open>Record parser (\<open>read_iaga2002\<close>): header and component triplet\<close>

text \<open>
  Strings are ASCII, which is what an IAGA-2002 file holds. \<open>str.strip\<close> and
  \<open>str.split\<close> without argument work on whitespace: space, the controls 9 to 13, and
  the separators 28 to 31.
\<close>

definition is_space :: "char \<Rightarrow> bool" where
  "is_space c = (of_char c \<in> {9, 10, 11, 12, 13, 28, 29, 30, 31, 32 :: nat})"

definition strip :: "string \<Rightarrow> string" where
  "strip s = rev (dropWhile is_space (rev (dropWhile is_space s)))"

text \<open>\<open>s.split()\<close>: the maximal runs of non-whitespace, in order.\<close>

fun split_from :: "string \<Rightarrow> string \<Rightarrow> string list" where
  "split_from cur [] = (if cur = [] then [] else [rev cur])"
| "split_from cur (c # cs) =
     (if is_space c then (if cur = [] then split_from [] cs else rev cur # split_from [] cs)
      else split_from (c # cur) cs)"

definition split :: "string \<Rightarrow> string list" where
  "split s = split_from [] s"

definition startswith :: "string \<Rightarrow> string \<Rightarrow> bool" where
  "startswith s p = (take (length p) s = p)"

text \<open>\<open>p in s\<close> for strings: \<open>p\<close> occurs in \<open>s\<close> as a contiguous run.\<close>

fun contains :: "string \<Rightarrow> string \<Rightarrow> bool" where
  "contains [] p = (p = [])"
| "contains (c # cs) p = (startswith (c # cs) p \<or> contains cs p)"

definition is_alpha :: "char \<Rightarrow> bool" where
  "is_alpha c = ((65 \<le> (of_char c :: nat) \<and> (of_char c :: nat) \<le> 90)
               \<or> (97 \<le> (of_char c :: nat) \<and> (of_char c :: nat) \<le> 122))"

definition upper :: "string \<Rightarrow> string" where
  "upper s = map (\<lambda>c. if 97 \<le> (of_char c :: nat) \<and> (of_char c :: nat) \<le> 122
                         then char_of ((of_char c :: nat) - 32) else c) s"

text \<open>
  What \<open>read_iaga2002\<close> returns instead of a frame: it logs one of these messages and
  returns an empty frame with no components. \<open>Read_failed\<close> is the outer
  \<open>except Exception\<close>.
\<close>

datatype format_error = Header_not_found | No_valid_components | Read_failed

text \<open>The lines of the file, stripped, the blank ones left out.\<close>

definition stripped_lines :: "string list \<Rightarrow> string list" where
  "stripped_lines raw = filter (\<lambda>l. l \<noteq> []) (map strip raw)"

definition is_header :: "string \<Rightarrow> bool" where
  "is_header line = (startswith line ''DATE'' \<and> contains line ''TIME'' \<and> contains line ''DOY'')"

text \<open>The loop that looks for the header line: the index of the first one, if any.\<close>

fun find_header :: "string list \<Rightarrow> nat option" where
  "find_header [] = None"
| "find_header (line # rest) =
     (if is_header line then Some 0 else map_option Suc (find_header rest))"

definition header_fields_of :: "string \<Rightarrow> string list" where
  "header_fields_of line = map (\<lambda>field. filter (\<lambda>c. c \<noteq> CHR ''|'') (strip field)) (split line)"

definition all_in :: "string list \<Rightarrow> string list \<Rightarrow> bool" where
  "all_in cs header_fields = list_all (\<lambda>c. c \<in> set header_fields) cs"

text \<open>The triplet as \<open>ENT_Kindex.py\<close> resolves it: the generic labels X, Y, Z only.\<close>

definition reported_components_ENT_Kindex :: "string list \<Rightarrow> format_error + string list" where
  "reported_components_ENT_Kindex raw =
     (let lines = stripped_lines raw in
      case find_header lines of
        None \<Rightarrow> Inl Header_not_found
      | Some header_end \<Rightarrow>
          (let header_fields = header_fields_of (lines ! header_end) in
           if all_in [''X'', ''Y'', ''Z''] header_fields then Inr [''X'', ''Y'', ''Z'']
           else Inl No_valid_components))"

text \<open>
  The loop of \<open>test.py\<close> over the lines before the header, threading
  \<open>reported_components\<close>: a later ``Reported'' line that decodes overrides an earlier
  one; the ``Station Name'' branch does not touch the triplet. \<open>line.split()[-1]\<close> of a
  line without a token would raise.
\<close>

fun scan_metadata :: "string list option \<Rightarrow> string list \<Rightarrow> format_error + string list option" where
  "scan_metadata reported_components [] = Inr reported_components"
| "scan_metadata reported_components (line # rest) =
     (if startswith line ''Reported'' then
        (case split line of
           [] \<Rightarrow> Inl Read_failed
         | tokens \<Rightarrow>
             (let reported_str = upper (filter is_alpha (last tokens)) in
              if reported_str \<in> set [''XYZF'', ''XYZ'']
                then scan_metadata (Some [''X'', ''Y'', ''Z'']) rest
              else if reported_str \<in> set [''HDZF'', ''HDZ'']
                then scan_metadata (Some [''H'', ''D'', ''Z'']) rest
              else scan_metadata reported_components rest))
      else scan_metadata reported_components rest)"

text \<open>
  A metadata line that declares the reported components in the way the loop reads it:
  it starts with ``Reported'' and the letters of its last token, in upper case, are one
  of the four codes.
\<close>

definition decodes :: "string \<Rightarrow> bool" where
  "decodes line = (startswith line ''Reported'' \<and>
      upper (filter is_alpha (last (split line))) \<in> set [''XYZF'', ''XYZ'', ''HDZF'', ''HDZ''])"

text \<open>The triplet as \<open>test.py\<close> resolves it; the station code is \<open>ent\<close>.\<close>

definition reported_components_test :: "string list \<Rightarrow> format_error + string list" where
  "reported_components_test raw =
     (let lines = stripped_lines raw in
      case find_header lines of
        None \<Rightarrow> Inl Header_not_found
      | Some header_end \<Rightarrow>
          (let header_fields = header_fields_of (lines ! header_end);
               possible_xyz = [''ENTX'', ''ENTY'', ''ENTZ''];
               possible_hdz = [''ENTH'', ''ENTD'', ''ENTZ'']
           in if all_in [''X'', ''Y'', ''Z''] header_fields then Inr [''X'', ''Y'', ''Z'']
              else if all_in [''H'', ''D'', ''Z''] header_fields then Inr [''H'', ''D'', ''Z'']
              else if all_in possible_xyz header_fields then Inr [''X'', ''Y'', ''Z'']
              else if all_in possible_hdz header_fields then Inr [''H'', ''D'', ''Z'']
              else (case scan_metadata None (take header_end lines) of
                      Inl e \<Rightarrow> Inl e
                    | Inr None \<Rightarrow> Inl No_valid_components
                    | Inr (Some reported_components) \<Rightarrow> Inr reported_components)))"

section \<open>Record parser (\<open>read_iaga2002\<close>): decoding a component column\<close>

text \<open>
  A data token read as a number. IAGA-2002 writes fixed-point decimals, and this is the
  part of the float syntax modelled: an optional sign, digits, and optionally a point and
  digits, with a digit on at least one side. Any other token counts as not a number.
\<close>

definition is_digit :: "char \<Rightarrow> bool" where
  "is_digit c = (48 \<le> (of_char c :: nat) \<and> (of_char c :: nat) \<le> 57)"

definition digits_value :: "string \<Rightarrow> nat" where
  "digits_value ds = foldl (\<lambda>n c. 10 * n + (of_char c - 48)) 0 ds"

definition unsigned_decimal :: "string \<Rightarrow> real option" where
  "unsigned_decimal s =
     (let ip = takeWhile is_digit s; rest = dropWhile is_digit s in
      case rest of
        [] \<Rightarrow> if ip = [] then None else Some (real (digits_value ip))
      | c # fp \<Rightarrow>
          if c = CHR ''.'' \<and> list_all is_digit fp \<and> (ip \<noteq> [] \<or> fp \<noteq> [])
          then Some (real (digits_value ip) + real (digits_value fp) / 10 ^ length fp)
          else None)"

definition to_float :: "string \<Rightarrow> real option" where
  "to_float tok =
     (case tok of
        [] \<Rightarrow> None
      | c # s \<Rightarrow>
          if c = CHR ''-'' then map_option uminus (unsigned_decimal s)
          else if c = CHR ''+'' then unsigned_decimal s
          else unsigned_decimal tok)"

definition is_number :: "string \<Rightarrow> bool" where
  "is_number tok = (case to_float tok of None \<Rightarrow> False | Some _ \<Rightarrow> True)"

text \<open>
  \<open>na_values\<close> as \<open>pd.read_csv\<close> takes it. A float in the list is matched by value
  against every token that reads as a number, and as text in its spellings
  \<open>str(x)\<close>, and \<open>x.0\<close> and the integer when it is whole; a string in the list is
  matched as text. The default markers of pandas stay in force
  (\<open>keep_default_na\<close>). \<open>ENT_Kindex.py\<close> passes the two floats, \<open>test.py\<close> the two
  floats and the two strings \<open>'99999.00'\<close> and \<open>'99999.9'\<close>.
\<close>

definition default_na_strings :: "string list" where
  "default_na_strings =
     [[], ''#N/A'', ''#N/A N/A'', ''#NA'', ''-1.#IND'', ''-1.#QNAN'', ''-NaN'', ''-nan'',
      ''1.#IND'', ''1.#QNAN'', ''<NA>'', ''N/A'', ''NA'', ''NULL'', ''NaN'', ''None'',
      ''n/a'', ''nan'', ''null'']"

definition na_floats :: "real list" where
  "na_floats = [99999.00, 99999.9]"

definition na_strings_ENT_Kindex :: "string list" where
  "na_strings_ENT_Kindex = [''99999.0'', ''99999'', ''99999.9''] @ default_na_strings"

definition na_strings_test :: "string list" where
  "na_strings_test = [''99999.0'', ''99999'', ''99999.9'', ''99999.00''] @ default_na_strings"

text \<open>
  What the reader makes of one column of tokens. When every token is a marker or reads
  as a number the column becomes a float column, a marker and a number equal to one of
  the floats of \<open>na_values\<close> becoming NaN. Otherwise the column stays a column of
  strings, in which only the markers matched as text become NaN.
\<close>

datatype csv_value = Float fval | Str string

definition convert_column :: "string list \<Rightarrow> string list \<Rightarrow> csv_value list" where
  "convert_column na_strings tokens =
     (if list_all (\<lambda>t. t \<in> set na_strings \<or> is_number t) tokens
      then map (\<lambda>t. if t \<in> set na_strings then Float None
                     else case to_float t of
                            None \<Rightarrow> Float None
                          | Some v \<Rightarrow> if v \<in> set na_floats then Float None else Float (Some v))
             tokens
      else map (\<lambda>t. if t \<in> set na_strings then Float None else Str t) tokens)"

text \<open>\<open>pd.to_numeric(column, errors='coerce')\<close> on one entry.\<close>

definition to_numeric_coerce :: "csv_value \<Rightarrow> fval" where
  "to_numeric_coerce c = (case c of Float v \<Rightarrow> v | Str s \<Rightarrow> to_float s)"

text \<open>A component column of the returned frame, from the tokens of the file's column.\<close>

definition component_column_ENT_Kindex :: "string list \<Rightarrow> fval list" where
  "component_column_ENT_Kindex tokens =
     map to_numeric_coerce (convert_column na_strings_ENT_Kindex tokens)"

definition component_column_test :: "string list \<Rightarrow> fval list" where
  "component_column_test tokens =
     map to_numeric_coerce (convert_column na_strings_test tokens)"

section \<open>Properties of the quantizer\<close>

lemma scaled_thresholds_length: "length (scaled_thresholds k9) = 10"
  by (simp add: scaled_thresholds_def niemegk_thresholds_def)

lemma niemegk_thresholds_length: "length niemegk_thresholds = 10"
  by (simp add: niemegk_thresholds_def)

lemma scaled_thresholds_nth:
  "i < 10 \<Longrightarrow> scaled_thresholds k9 ! i = niemegk_thresholds ! i * k9 / 500"
  by (simp add: scaled_thresholds_def niemegk_thresholds_length)

lemma niemegk_thresholds_sorted: "sorted niemegk_thresholds"
  by (simp add: niemegk_thresholds_def)

lemma scaled_thresholds_sorted:
  assumes "0 \<le> k9"
  shows "sorted (scaled_thresholds k9)"
  using assms by (simp add: scaled_thresholds_def niemegk_thresholds_def)

text \<open>
  On an ascending array whose first element does not exceed the key, the insertion point
  found from the right is one more than the greatest index holding an element \<open>\<le>\<close> the key.
\<close>

lemma takeWhile_le_sorted_Max:
  fixes a :: "real list"
  assumes srt: "sorted a" and ne: "a \<noteq> []" and first: "a ! 0 \<le> x"
  shows "Max {i. i < length a \<and> a ! i \<le> x} = length (takeWhile (\<lambda>t. t \<le> x) a) - 1"
proof -
  let ?n = "length (takeWhile (\<lambda>t. t \<le> x) a)"
  have n_le: "?n \<le> length a" by (rule length_takeWhile_le)
  have below: "a ! i \<le> x" if "i < ?n" for i
  proof -
    have "takeWhile (\<lambda>t. t \<le> x) a ! i \<in> set (takeWhile (\<lambda>t. t \<le> x) a)"
      using that by simp
    then have "takeWhile (\<lambda>t. t \<le> x) a ! i \<le> x"
      by (auto dest: set_takeWhileD)
    then show ?thesis using that by (simp add: takeWhile_nth)
  qed
  have above: "\<not> a ! i \<le> x" if "?n \<le> i" "i < length a" for i
  proof -
    have "?n < length a" using that by simp
    then have "\<not> a ! ?n \<le> x" by (rule nth_length_takeWhile)
    moreover have "a ! ?n \<le> a ! i"
      using srt that by (simp add: sorted_iff_nth_mono)
    ultimately show ?thesis by simp
  qed
  have pos: "0 < ?n"
  proof (rule ccontr)
    assume "\<not> 0 < ?n"
    then have "?n \<le> 0" by simp
    moreover have "0 < length a" using ne by simp
    ultimately have "\<not> a ! 0 \<le> x" using above[of 0] by simp
    then show False using first by simp
  qed
  have set_eq: "{i. i < length a \<and> a ! i \<le> x} = {i. i < ?n}"
    using below above n_le by (auto simp: not_le[symmetric] simp del: not_le)
  have "Max {i. i < ?n} = ?n - 1"
  proof (rule Max_eqI)
    show "finite {i. i < ?n}" by simp
    show "y \<le> ?n - 1" if "y \<in> {i. i < ?n}" for y using that by simp
    show "?n - 1 \<in> {i. i < ?n}" using pos by simp
  qed
  then show ?thesis by (simp add: set_eq)
qed

lemma k_value_500_examples:
  "k_value 500 (Some 120) = 6" "k_value 500 (Some 4) = 0.25" "k_value 500 (Some 501) = 9"
  by (simp_all add: k_value_def searchsorted_right_def scaled_thresholds_def
      niemegk_thresholds_def clip_def)

text \<open>
  C1. For a disturbance statistic \<open>v \<ge> 0\<close> and a K9 limit \<open>k9 > 0\<close> the quantizer
  returns the greatest index \<open>i\<close> of the ten-entry table whose base threshold scaled by
  \<open>k9 / 500\<close> is at most \<open>v\<close> (an index in 0..9, so the clamp changes nothing), reported
  as 0.25 when it is 0 and as itself otherwise. With \<open>k9 = 500\<close>: 120 gives 6, 4 gives
  0.25 and 501 gives 9.
\<close>

theorem k_value_greatest_index:
  assumes "0 \<le> v" and "0 < k9"
  shows "k_value k9 (Some v) =
           (let i = Max {i. i < 10 \<and> niemegk_thresholds ! i * (k9 / 500) \<le> v}
            in if i = 0 then 0.25 else real i)
         \<and> Max {i. i < 10 \<and> niemegk_thresholds ! i * (k9 / 500) \<le> v} \<le> 9
         \<and> k_value 500 (Some 120) = 6
         \<and> k_value 500 (Some 4) = 0.25
         \<and> k_value 500 (Some 501) = 9"
proof -
  let ?a = "scaled_thresholds k9"
  let ?S = "{i. i < 10 \<and> niemegk_thresholds ! i * (k9 / 500) \<le> v}"
  let ?n = "length (takeWhile (\<lambda>t. t \<le> v) ?a)"
  have S_eq: "?S = {i. i < length ?a \<and> ?a ! i \<le> v}"
    by (auto simp: scaled_thresholds_length scaled_thresholds_nth)
  have srt: "sorted ?a" using assms(2) by (simp add: scaled_thresholds_sorted)
  have ne: "?a \<noteq> []" by (simp add: scaled_thresholds_def niemegk_thresholds_def)
  have first: "?a ! 0 \<le> v"
    using assms(1) by (simp add: scaled_thresholds_def niemegk_thresholds_def)
  have M: "Max ?S = ?n - 1"
    unfolding S_eq by (rule takeWhile_le_sorted_Max[OF srt ne first])
  have n_le: "?n \<le> 10"
    using length_takeWhile_le[of "\<lambda>t. t \<le> v" ?a] by (simp add: scaled_thresholds_length)
  have n_pos: "0 < ?n"
    using first ne by (cases ?a) auto
  have "int ?n - 1 = int (?n - 1)"
    using n_pos by (simp only: of_nat_diff One_nat_def Suc_leI of_nat_1)
  then have clip_eq: "clip (int ?n - 1) 0 9 = int (?n - 1)"
    using n_le unfolding clip_def by linarith
  have "k_value k9 (Some v) = (if ?n - 1 = 0 then 0.25 else real (?n - 1))"
    by (simp add: k_value_def searchsorted_right_def clip_eq Let_def)
  then have main: "k_value k9 (Some v) = (let i = Max ?S in if i = 0 then 0.25 else real i)"
    by (simp only: M Let_def)
  have "?n - 1 \<le> 9" using n_le by simp
  then have bound: "Max ?S \<le> 9" by (simp only: M)
  show ?thesis
    by (intro conjI main bound k_value_500_examples)
qed

theorem k_value_greatest_index_witness:
  "(0::real) \<le> 45 \<and> (0::real) < 500
   \<and> k_value 500 (Some 45) =
       (let i = Max {i. i < 10 \<and> niemegk_thresholds ! i * (500 / 500) \<le> 45}
        in if i = 0 then 0.25 else real i)
   \<and> k_value 500 (Some 45) = 4"
proof -
  have "k_value 500 (Some 45) = 4"
    by (simp add: k_value_def searchsorted_right_def scaled_thresholds_def
        niemegk_thresholds_def clip_def)
  then show ?thesis
    using k_value_greatest_index[of 45 500] by simp
qed

text \<open>
  C5. Doubling both the K9 limit (500 to 1000) and the disturbance statistic leaves the
  K-index unchanged, for every statistic, a NaN one included.
\<close>

theorem k_value_scale_invariant:
  "k_value 1000 (map_option (\<lambda>x. 2 * x) v) = k_value 500 v"
proof (cases v)
  case None
  then show ?thesis
    by (simp add: k_value_def searchsorted_right_def scaled_thresholds_def)
next
  case (Some x)
  have "length (takeWhile (\<lambda>t. t \<le> 2 * x) (scaled_thresholds 1000))
        = length (takeWhile (\<lambda>t. t \<le> x) (scaled_thresholds 500))"
    by (simp add: scaled_thresholds_def takeWhile_map comp_def)
  then show ?thesis
    using Some by (simp add: k_value_def searchsorted_right_def)
qed

section \<open>Properties of the window aggregator\<close>

lemma start_of_day_utc_midnight:
  "start_of_day_utc t mod 86400 = 0" "start_of_day_utc t \<le> t" "t < start_of_day_utc t + 86400"
proof -
  have "t = 86400 * (t div 86400) + t mod 86400" by simp
  moreover have "0 \<le> t mod 86400" "t mod 86400 < 86400" by simp_all
  ultimately show "start_of_day_utc t \<le> t" "t < start_of_day_utc t + 86400"
    unfolding start_of_day_utc_def by linarith+
  show "start_of_day_utc t mod 86400 = 0"
    unfolding start_of_day_utc_def by simp
qed

lemma block_of_anchor:
  "(t - start_of_day_utc t0) div 10800 = t div 10800 - 8 * (t0 div 86400)"
proof -
  have "t - start_of_day_utc t0 = t + (- 8 * (t0 div 86400)) * 10800"
    unfolding start_of_day_utc_def by simp
  then have "(t - start_of_day_utc t0) div 10800 = (t + (- 8 * (t0 div 86400)) * 10800) div 10800"
    by simp
  also have "\<dots> = (- 8 * (t0 div 86400)) + t div 10800"
    by (rule div_mult_self1) simp
  finally show ?thesis by simp
qed

text \<open>
  The anchor does not show in the output: the midpoint emitted for a sample's window is
  the same whichever sample of the sequence comes first.
\<close>

lemma window_midpoint_anchor_free:
  "start_of_day_utc t0 + ((t - start_of_day_utc t0) div 10800) * 10800 + 5400
   = (t div 10800) * 10800 + 5400"
  by (simp add: block_of_anchor) (simp add: start_of_day_utc_def algebra_simps)

lemma those_all_Some: "(\<forall>x\<in>set xs. x \<noteq> None) \<Longrightarrow> those xs = Some (map the xs)"
  by (induction xs) auto

lemma np_ptp_present:
  assumes "xs \<noteq> []" and "\<forall>x\<in>set xs. x \<noteq> None"
  shows "np_ptp xs = Inr (Some (Max (the ` set xs) - Min (the ` set xs)))"
  using assms by (simp add: np_ptp_def those_all_Some)

lemma np_ptp_total: "xs \<noteq> [] \<Longrightarrow> \<exists>r. np_ptp xs = Inr r"
  by (cases "those xs") (simp_all add: np_ptp_def)

lemma py_max_present: "py_max (Some a) (Some b) = Some (max a b)"
  by (simp add: py_max_def fgt_def max_def)

lemma bool_index_nth:
  assumes "length arr = length blocks"
  shows "bool_index arr (map (\<lambda>h. h = b) blocks)
         = Inr (map ((!) arr) (filter (\<lambda>i. blocks ! i = b) [0..<length blocks]))"
proof -
  have z: "zip arr (map P blocks) = map (\<lambda>i. (arr ! i, P (blocks ! i))) [0..<length blocks]" for P
    using assms by (intro nth_equalityI) auto
  have "map fst (filter snd (zip arr (map P blocks)))
        = map ((!) arr) (filter (\<lambda>i. P (blocks ! i)) [0..<length blocks])" for P
    unfolding z by (simp add: filter_map comp_def)
  then show ?thesis using assms by (simp add: bool_index_def)
qed

lemma filter_id_map: "filter id (map P xs) = map P (filter P xs)"
  by (induction xs) auto

lemma block_count:
  "length (filter (\<lambda>h. h = b) blocks) = card {i. i < length blocks \<and> blocks ! i = b}"
  by (simp add: length_filter_conv_card)

lemma block_indices_length:
  "length (filter (\<lambda>i. blocks ! i = b) [0..<length blocks])
   = card {i. i < length blocks \<and> blocks ! i = b}"
proof -
  have "card (set (filter (\<lambda>i. blocks ! i = b) [0..<length blocks]))
        = length (filter (\<lambda>i. blocks ! i = b) [0..<length blocks])"
    by (rule distinct_card) simp
  moreover have "set (filter (\<lambda>i. blocks ! i = b) [0..<length blocks])
                 = {i. i < length blocks \<and> blocks ! i = b}"
    by auto
  ultimately show ?thesis by simp
qed

lemma variation_single:
  assumes "card {i. i < length blocks \<and> blocks ! i = b} \<le> 1"
  shows "variation blocks xs ys b = Inr (Some 0)"
  using assms by (simp add: variation_def filter_id_map block_count Let_def)

lemma variation_total:
  assumes "length xs = length blocks" "length ys = length blocks"
  shows "\<exists>v. variation blocks xs ys b = Inr v"
proof (cases "1 < card {i. i < length blocks \<and> blocks ! i = b}")
  case False
  then show ?thesis using variation_single[of blocks b xs ys] by simp
next
  case True
  let ?idx = "filter (\<lambda>i. blocks ! i = b) [0..<length blocks]"
  have "length ?idx = card {i. i < length blocks \<and> blocks ! i = b}"
    by (rule block_indices_length)
  then have "0 < length ?idx" using True by linarith
  then have ne: "?idx \<noteq> []" by (rule length_greater_0_conv[THEN iffD1])
  obtain rx where rx: "np_ptp (map ((!) xs) ?idx) = Inr rx"
    using ne np_ptp_total by fastforce
  obtain ry where ry: "np_ptp (map ((!) ys) ?idx) = Inr ry"
    using ne np_ptp_total by fastforce
  show ?thesis
    using True rx ry
    by (simp add: variation_def filter_id_map block_count Let_def bool_index_nth[OF assms(1)] bool_index_nth[OF assms(2)])
qed

lemma variation_multi:
  assumes len: "length xs = length blocks" "length ys = length blocks"
    and many: "1 < card {i. i < length blocks \<and> blocks ! i = b}"
    and present: "\<forall>i. i < length blocks \<and> blocks ! i = b \<longrightarrow> xs ! i \<noteq> None \<and> ys ! i \<noteq> None"
  shows "variation blocks xs ys b =
           Inr (Some (max (Max ((\<lambda>i. the (xs ! i)) ` {i. i < length blocks \<and> blocks ! i = b})
                           - Min ((\<lambda>i. the (xs ! i)) ` {i. i < length blocks \<and> blocks ! i = b}))
                          (Max ((\<lambda>i. the (ys ! i)) ` {i. i < length blocks \<and> blocks ! i = b})
                           - Min ((\<lambda>i. the (ys ! i)) ` {i. i < length blocks \<and> blocks ! i = b}))))"
proof -
  let ?I = "{i. i < length blocks \<and> blocks ! i = b}"
  let ?idx = "filter (\<lambda>i. blocks ! i = b) [0..<length blocks]"
  have "length ?idx = card ?I" by (rule block_indices_length)
  then have "0 < length ?idx" using many by linarith
  then have ne: "?idx \<noteq> []" by (rule length_greater_0_conv[THEN iffD1])
  have setidx: "set ?idx = ?I" by auto
  have px: "np_ptp (map ((!) xs) ?idx) = Inr (Some (Max ((\<lambda>i. the (xs ! i)) ` ?I) - Min ((\<lambda>i. the (xs ! i)) ` ?I)))"
  proof -
    have "\<forall>x\<in>set (map ((!) xs) ?idx). x \<noteq> None" using present by auto
    moreover have "map ((!) xs) ?idx \<noteq> []" using ne by simp
    ultimately have "np_ptp (map ((!) xs) ?idx)
        = Inr (Some (Max (the ` set (map ((!) xs) ?idx)) - Min (the ` set (map ((!) xs) ?idx))))"
      by (rule np_ptp_present[rotated])
    moreover have "the ` set (map ((!) xs) ?idx) = (\<lambda>i. the (xs ! i)) ` ?I"
      unfolding set_map setidx by (simp add: image_image)
    ultimately show ?thesis by simp
  qed
  have py: "np_ptp (map ((!) ys) ?idx) = Inr (Some (Max ((\<lambda>i. the (ys ! i)) ` ?I) - Min ((\<lambda>i. the (ys ! i)) ` ?I)))"
  proof -
    have "\<forall>x\<in>set (map ((!) ys) ?idx). x \<noteq> None" using present by auto
    moreover have "map ((!) ys) ?idx \<noteq> []" using ne by simp
    ultimately have "np_ptp (map ((!) ys) ?idx)
        = Inr (Some (Max (the ` set (map ((!) ys) ?idx)) - Min (the ` set (map ((!) ys) ?idx))))"
      by (rule np_ptp_present[rotated])
    moreover have "the ` set (map ((!) ys) ?idx) = (\<lambda>i. the (ys ! i)) ` ?I"
      unfolding set_map setidx by (simp add: image_image)
    ultimately show ?thesis by simp
  qed
  show ?thesis
    using many
    by (simp add: variation_def filter_id_map block_count Let_def bool_index_nth[OF len(1)] bool_index_nth[OF len(2)]
        px py py_max_present del: set_filter)
qed

lemma block_loop_total:
  assumes "\<forall>b\<in>set bs. \<exists>v. variation blocks xs ys b = Inr v"
  shows "\<exists>vs. block_loop day blocks xs ys bs = Inr (vs, map (\<lambda>b. day + b * 10800 + 5400) bs)
              \<and> length vs = length bs
              \<and> (\<forall>j<length bs. variation blocks xs ys (bs ! j) = Inr (vs ! j))"
  using assms
proof (induction bs)
  case Nil
  then show ?case by simp
next
  case (Cons b bs)
  then obtain v where v: "variation blocks xs ys b = Inr v" by auto
  from Cons obtain vs where vs: "block_loop day blocks xs ys bs = Inr (vs, map (\<lambda>b. day + b * 10800 + 5400) bs)"
    "length vs = length bs" "\<forall>j<length bs. variation blocks xs ys (bs ! j) = Inr (vs ! j)"
    by auto
  show ?case
  proof (intro exI[of _ "v # vs"] conjI allI impI)
    show "block_loop day blocks xs ys (b # bs) = Inr (v # vs, map (\<lambda>b. day + b * 10800 + 5400) (b # bs))"
      by (simp add: v vs(1))
    show "length (v # vs) = length (b # bs)" by (simp add: vs(2))
    show "variation blocks xs ys ((b # bs) ! j) = Inr ((v # vs) ! j)" if "j < length (b # bs)" for j
      using that v vs(3) by (cases j) auto
  qed
qed

lemma np_unique_sorted_list: "np_unique xs = sorted_list_of_set (set xs)"
  by (simp add: np_unique_def sorted_list_of_set_sort_remdups)

lemma k_value_zero: "0 < k9 \<Longrightarrow> k_value k9 (Some 0) = 0.25"
  by (simp add: k_value_def searchsorted_right_def scaled_thresholds_def
      niemegk_thresholds_def clip_def)

lemma day_seconds_start_utc_label:
  "map_of s 0 = Some t0 \<Longrightarrow> day_seconds_start_utc s = Inr (start_of_day_utc t0)"
  "map_of s 0 = None \<Longrightarrow> day_seconds_start_utc s = Inl KeyError"
  by (simp_all add: day_seconds_start_utc_def series_at_label_def)

text \<open>
  A Series that is not empty and has no row labelled 0 makes \<open>calculate_k_index\<close> raise
  KeyError, whatever its samples are.
\<close>

lemma calculate_k_index_no_label_zero:
  assumes "s \<noteq> []" and "map_of s 0 = None"
  shows "calculate_k_index s xs ys k9 = Inl KeyError"
  using assms
  by (simp add: calculate_k_index_def window_statistics_def day_seconds_start_utc_label)

lemma length_hour_blocks: "length (hour_blocks d ts) = length ts"
  by (simp add: hour_blocks_def)

lemma window_statistics_total:
  assumes lab: "map_of s 0 = Some t0"
    and lx: "length xs = length s" and ly: "length ys = length s"
  shows "\<exists>vs. window_statistics s xs ys
               = Inr (vs, map (\<lambda>b. start_of_day_utc t0 + b * 10800 + 5400)
                        (sorted_list_of_set (set (hour_blocks (start_of_day_utc t0) (map snd s)))))
            \<and> length vs = card (set (hour_blocks (start_of_day_utc t0) (map snd s)))
            \<and> (\<forall>j<card (set (hour_blocks (start_of_day_utc t0) (map snd s))).
                  variation (hour_blocks (start_of_day_utc t0) (map snd s)) xs ys
                    (sorted_list_of_set (set (hour_blocks (start_of_day_utc t0) (map snd s))) ! j)
                  = Inr (vs ! j))"
proof -
  let ?d = "start_of_day_utc t0"
  let ?hb = "hour_blocks ?d (map snd s)"
  let ?bs = "sorted_list_of_set (set ?hb)"
  have lens: "length xs = length ?hb" "length ys = length ?hb"
    using lx ly by (simp_all add: length_hour_blocks)
  have "\<forall>b\<in>set ?bs. \<exists>v. variation ?hb xs ys b = Inr v"
    using variation_total[OF lens] by blast
  from block_loop_total[OF this, of ?d]
  obtain vs where vs: "block_loop ?d ?hb xs ys ?bs = Inr (vs, map (\<lambda>b. ?d + b * 10800 + 5400) ?bs)"
    "length vs = length ?bs" "\<forall>j<length ?bs. variation ?hb xs ys (?bs ! j) = Inr (vs ! j)"
    by blast
  have lbs: "length ?bs = card (set ?hb)" by simp
  have ws: "window_statistics s xs ys = block_loop ?d ?hb xs ys ?bs"
    by (simp add: window_statistics_def day_seconds_start_utc_label(1)[OF lab] Let_def
        np_unique_sorted_list)
  show ?thesis
    using vs unfolding ws lbs by blast
qed

text \<open>
  Where the code does what the specification says of the windows: on a Series that has
  a row labelled 0 (its time \<open>t0\<close> gives the anchor \<open>d\<close>), with arrays of one length and
  a positive K9 limit, the windows come out in ascending order of the distinct block
  indices with the timestamp \<open>d + b * 10800 + 5400\<close>; a block of one sample has
  statistic 0 and K-index 0.25; a block of several samples that all have both values
  has the greater of the two ranges.
\<close>

lemma window_statistics_per_block:
  assumes lab: "map_of s 0 = Some t0"
    and lx: "length xs = length s" and ly: "length ys = length s"
    and k9: "0 < k9"
  shows "let d = start_of_day_utc t0;
             hb = hour_blocks d (map snd s);
             bs = sorted_list_of_set (set hb)
         in \<exists>variations.
              window_statistics s xs ys = Inr (variations, map (\<lambda>b. d + b * 10800 + 5400) bs)
            \<and> calculate_k_index s xs ys k9
                = Inr (map (k_value k9) variations, map (\<lambda>b. d + b * 10800 + 5400) bs)
            \<and> length variations = length bs
            \<and> (\<forall>j<length bs.
                 let I = {i. i < length s \<and> hb ! i = bs ! j} in
                   (card I = 1 \<longrightarrow> variations ! j = Some 0 \<and> k_value k9 (variations ! j) = 0.25)
                 \<and> (1 < card I \<and> (\<forall>i\<in>I. xs ! i \<noteq> None \<and> ys ! i \<noteq> None) \<longrightarrow>
                      variations ! j =
                        Some (max (Max ((\<lambda>i. the (xs ! i)) ` I) - Min ((\<lambda>i. the (xs ! i)) ` I))
                                  (Max ((\<lambda>i. the (ys ! i)) ` I) - Min ((\<lambda>i. the (ys ! i)) ` I)))))"
proof -
  let ?d = "start_of_day_utc t0"
  let ?hb = "hour_blocks ?d (map snd s)"
  let ?bs = "sorted_list_of_set (set ?hb)"
  let ?g = "\<lambda>b. ?d + b * 10800 + 5400"
  have ne: "s \<noteq> []" using lab by auto
  have lhb: "length ?hb = length s" by (simp add: length_hour_blocks)
  have lens: "length xs = length ?hb" "length ys = length ?hb"
    using lx ly by (simp_all add: lhb)
  have lbs: "length ?bs = card (set ?hb)" by simp
  from window_statistics_total[OF lab lx ly]
  obtain vs where ws: "window_statistics s xs ys = Inr (vs, map ?g ?bs)"
    and lvs: "length vs = length ?bs"
    and var: "\<forall>j<length ?bs. variation ?hb xs ys (?bs ! j) = Inr (vs ! j)"
    unfolding lbs by blast
  have ck: "calculate_k_index s xs ys k9 = Inr (map (k_value k9) vs, map ?g ?bs)"
    using ne by (simp add: calculate_k_index_def ws)
  have per: "(card {i. i < length s \<and> ?hb ! i = ?bs ! j} = 1 \<longrightarrow>
                 vs ! j = Some 0 \<and> k_value k9 (vs ! j) = 0.25)
           \<and> (1 < card {i. i < length s \<and> ?hb ! i = ?bs ! j}
               \<and> (\<forall>i\<in>{i. i < length s \<and> ?hb ! i = ?bs ! j}. xs ! i \<noteq> None \<and> ys ! i \<noteq> None) \<longrightarrow>
                 vs ! j =
                   Some (max (Max ((\<lambda>i. the (xs ! i)) ` {i. i < length s \<and> ?hb ! i = ?bs ! j})
                              - Min ((\<lambda>i. the (xs ! i)) ` {i. i < length s \<and> ?hb ! i = ?bs ! j}))
                             (Max ((\<lambda>i. the (ys ! i)) ` {i. i < length s \<and> ?hb ! i = ?bs ! j})
                              - Min ((\<lambda>i. the (ys ! i)) ` {i. i < length s \<and> ?hb ! i = ?bs ! j}))))"
    if j: "j < length ?bs" for j
  proof (intro conjI impI)
    let ?I = "{i. i < length s \<and> ?hb ! i = ?bs ! j}"
    have I_eq: "?I = {i. i < length ?hb \<and> ?hb ! i = ?bs ! j}" by (simp only: lhb)
    have vj: "variation ?hb xs ys (?bs ! j) = Inr (vs ! j)" using var j by blast
    {
      assume one: "card ?I = 1"
      then have "card {i. i < length ?hb \<and> ?hb ! i = ?bs ! j} \<le> 1" by (simp only: I_eq[symmetric])
      from variation_single[OF this, of xs ys] vj show z: "vs ! j = Some 0" by simp
      show "k_value k9 (vs ! j) = 0.25" by (simp only: z k_value_zero[OF k9])
    }
    {
      assume many: "1 < card ?I \<and> (\<forall>i\<in>?I. xs ! i \<noteq> None \<and> ys ! i \<noteq> None)"
      then have m1: "1 < card {i. i < length ?hb \<and> ?hb ! i = ?bs ! j}" by (simp only: I_eq[symmetric])
      have m2: "\<forall>i. i < length ?hb \<and> ?hb ! i = ?bs ! j \<longrightarrow> xs ! i \<noteq> None \<and> ys ! i \<noteq> None"
        using many unfolding lhb by blast
      from variation_multi[OF lens m1 m2] vj
      show "vs ! j =
              Some (max (Max ((\<lambda>i. the (xs ! i)) ` ?I) - Min ((\<lambda>i. the (xs ! i)) ` ?I))
                        (Max ((\<lambda>i. the (ys ! i)) ` ?I) - Min ((\<lambda>i. the (ys ! i)) ` ?I)))"
        unfolding lhb by simp
    }
  qed
  show ?thesis
    unfolding Let_def
    apply (rule exI[of _ vs])
    apply (rule conjI[OF ws])
    apply (rule conjI[OF ck])
    apply (rule conjI[OF lvs])
    apply (rule allI)
    apply (rule impI)
    apply (erule per)
    done
qed

lemma floor_div_10800: "\<lfloor>real_of_int a / 10800\<rfloor> = a div 10800"
proof -
  have "\<lfloor>real_of_int a / real_of_int 10800\<rfloor> = a div 10800"
    by (rule floor_divide_of_int_eq)
  then show ?thesis by simp
qed

lemma block_negative_iff:
  "((t - d) div 10800 < 0) = (t < (d::int))"
proof -
  have "((t - d) div 10800 < 0) = (t - d < 0)"
    by (rule pos_imp_zdiv_neg_iff) simp
  then show ?thesis by simp
qed

text \<open>
  The anchor the code takes: midnight UTC of the day of the row labelled 0. Every sample
  gets the block \<open>floor ((t - d) / 10800)\<close>, negative exactly for a sample before the
  anchor, and the emitted windows are, one each, the distinct block indices present.
\<close>

lemma anchor_is_day_of_label_zero:
  assumes lab: "map_of s 0 = Some t0"
    and lx: "length xs = length s" and ly: "length ys = length s"
  shows "\<exists>d ks tms.
           day_seconds_start_utc s = Inr d
         \<and> d mod 86400 = 0 \<and> d \<le> t0 \<and> t0 < d + 86400
         \<and> hour_blocks d (map snd s) = map (\<lambda>t. \<lfloor>real_of_int (t - d) / 10800\<rfloor>) (map snd s)
         \<and> (\<forall>i<length s. (hour_blocks d (map snd s) ! i < 0) = (snd (s ! i) < d))
         \<and> calculate_k_index s xs ys k9 = Inr (ks, tms)
         \<and> distinct tms
         \<and> set tms = (\<lambda>b. d + b * 10800 + 5400) ` set (hour_blocks d (map snd s))
         \<and> length ks = card (set (hour_blocks d (map snd s)))"
proof -
  let ?d = "start_of_day_utc t0"
  let ?hb = "hour_blocks ?d (map snd s)"
  let ?bs = "sorted_list_of_set (set ?hb)"
  let ?g = "\<lambda>b. ?d + b * 10800 + 5400"
  have ne: "s \<noteq> []" using lab by auto
  from window_statistics_total[OF lab lx ly]
  obtain vs where ws: "window_statistics s xs ys = Inr (vs, map ?g ?bs)"
    and lvs: "length vs = card (set ?hb)"
    by blast
  have c1: "day_seconds_start_utc s = Inr ?d" by (rule day_seconds_start_utc_label(1)[OF lab])
  have c2: "?d mod 86400 = 0" "?d \<le> t0" "t0 < ?d + 86400"
    by (rule start_of_day_utc_midnight)+
  have c3: "?hb = map (\<lambda>t. \<lfloor>real_of_int (t - ?d) / 10800\<rfloor>) (map snd s)"
    unfolding hour_blocks_def
    by (rule map_cong[OF refl]) (simp only: floor_div_10800)
  have c4: "\<forall>i<length s. (?hb ! i < 0) = (snd (s ! i) < ?d)"
    by (simp add: hour_blocks_def block_negative_iff)
  have c5: "calculate_k_index s xs ys k9 = Inr (map (k_value k9) vs, map ?g ?bs)"
    using ne by (simp add: calculate_k_index_def ws)
  have c6: "distinct (map ?g ?bs)"
    by (simp add: distinct_map inj_on_def)
  have c7: "set (map ?g ?bs) = ?g ` set ?hb" by simp
  have c8: "length (map (k_value k9) vs) = card (set ?hb)" by (simp add: lvs)
  show ?thesis
    by (intro exI[of _ ?d] exI[of _ "map (k_value k9) vs"] exI[of _ "map ?g ?bs"] conjI
        c1 c2 c3 c4 c5 c6 c7 c8)
qed

section \<open>Properties of the quality filter\<close>

text \<open>The filter with the deviation computed exactly, written out.\<close>

lemma z_score_column_fun: "z_score_column = z_score_column_with series_std"
  by (rule ext) (simp add: z_score_column_def)

lemma z_score_column_eq:
  "z_score_column x = (if fgt (series_std x) (Some 0) then zscore x else zeros_like x)"
  by (simp add: z_score_column_def z_score_column_with_def)

lemma valid_mask_eq:
  "valid_mask data components =
     (let numeric_data = map (\<lambda>c. column c data) components;
          z_scores = map z_score_column numeric_data
      in map (\<lambda>i. list_all (\<lambda>z. score_ok (z ! i)) z_scores) [0..<length data])"
  by (simp add: valid_mask_def valid_mask_with_def z_score_column_fun)

lemma preprocess_data_eq:
  "preprocess_data data components =
     (if data = [] then data
      else if components \<noteq> [] then map fst (filter snd (zip data (valid_mask data components)))
      else data)"
  by (simp add: preprocess_data_def preprocess_data_with_def valid_mask_def)

lemma sum_sq_dev_nonneg: "0 \<le> sum_sq_dev vs"
  unfolding sum_sq_dev_def by (rule sum_list_nonneg) auto

lemma variance_nonneg: "0 \<le> variance x"
  unfolding variance_def by (simp add: sum_sq_dev_nonneg)

lemma sum_sq_dev_single: "sum_sq_dev [v] = 0"
  by (simp add: sum_sq_dev_def mean_def)

lemma pos_divide_iff: "0 < (b::real) \<Longrightarrow> (0 < a / b) = (0 < a)"
  by (simp add: zero_less_divide_iff less_asym)

lemma series_std_pos_iff: "fgt (series_std x) (Some 0) = (variance x \<noteq> 0)"
proof -
  let ?vs = "present x"
  consider (none) "length ?vs = 0" | (one) "length ?vs = 1" | (many) "2 \<le> length ?vs"
    by linarith
  then show ?thesis
  proof cases
    case none
    then show ?thesis by (simp add: series_std_def variance_def fgt_def)
  next
    case one
    then obtain v where "?vs = [v]" by (cases ?vs) auto
    then show ?thesis
      by (simp add: series_std_def variance_def fgt_def sum_sq_dev_single)
  next
    case many
    have "fgt (series_std x) (Some 0) = (0 < sum_sq_dev ?vs / real (length ?vs - 1))"
      using many by (simp add: series_std_def fgt_def Let_def)
    also have "\<dots> = (0 < sum_sq_dev ?vs)"
    proof -
      have "0 < real (length ?vs - 1)" using many by simp
      then show ?thesis by (rule pos_divide_iff)
    qed
    also have "\<dots> = (sum_sq_dev ?vs \<noteq> 0)"
      using sum_sq_dev_nonneg[of ?vs] by linarith
    also have "\<dots> = (variance x \<noteq> 0)"
    proof -
      have "present x \<noteq> []" using many by auto
      then show ?thesis by (simp add: variance_def)
    qed
    finally show ?thesis .
  qed
qed

lemma z_score_column_spread: "variance x \<noteq> 0 \<Longrightarrow> z_score_column x = zscore x"
  by (simp add: z_score_column_eq series_std_pos_iff)


lemma zscore_flat:
  assumes "variance x = 0"
  shows "zscore x = map (\<lambda>_. None) x"
proof -
  have sd: "sqrt (sum_sq_dev (present x) / real (length (present x))) = 0"
    using assms by (simp only: variance_def real_sqrt_zero)
  show ?thesis
    unfolding zscore_def Let_def sd
    by (rule map_cong[OF refl]) (simp split: option.splits)
qed

lemma length_zscore: "length (zscore x) = length x"
  by (simp add: zscore_def Let_def)

lemma length_column: "length (column c data) = length data"
  by (simp add: column_def)

lemma length_valid_mask_with: "length (valid_mask_with std data components) = length data"
  by (simp add: valid_mask_with_def Let_def)

lemma valid_mask_with_nth:
  assumes "i < length data"
  shows "valid_mask_with std data components ! i
         = (\<forall>c\<in>set components. score_ok (z_score_column_with std (column c data) ! i))"
  using assms by (simp add: valid_mask_with_def Let_def list_all_iff)

lemma length_valid_mask: "length (valid_mask data components) = length data"
  by (simp add: valid_mask_eq Let_def)

lemma valid_mask_nth:
  assumes "i < length data"
  shows "valid_mask data components ! i
         = (\<forall>c\<in>set components. score_ok (z_score_column (column c data) ! i))"
  using assms by (simp add: valid_mask_eq Let_def list_all_iff)



lemma select_by_index:
  assumes "length m = length xs"
  shows "map fst (filter snd (zip xs m)) = map ((!) xs) (filter ((!) m) [0..<length xs])"
proof -
  have z: "zip xs m = map (\<lambda>i. (xs ! i, m ! i)) [0..<length xs]"
    using assms by (intro nth_equalityI) auto
  show ?thesis
    unfolding z by (simp add: filter_map comp_def)
qed

lemma nths_by_index: "nths xs A = map ((!) xs) (filter (\<lambda>i. i \<in> A) [0..<length xs])"
proof -
  have z: "zip xs [0..<length xs] = map (\<lambda>i. (xs ! i, i)) [0..<length xs]"
    by (intro nth_equalityI) auto
  show ?thesis
    unfolding nths_def z by (simp add: filter_map comp_def)
qed

lemma boolean_select_nths:
  assumes "length m = length xs"
  shows "map fst (filter snd (zip xs m)) = nths xs {i. i < length xs \<and> m ! i}"
proof -
  have "filter ((!) m) [0..<length xs] = filter (\<lambda>i. i \<in> {i. i < length xs \<and> m ! i}) [0..<length xs]"
    by (rule filter_cong[OF refl]) simp
  then show ?thesis
    by (simp only: select_by_index[OF assms] nths_by_index)
qed

lemma preprocess_data_with_nths:
  "preprocess_data_with std data components
   = nths data {i. i < length data \<and> valid_mask_with std data components ! i}"
proof (cases "data = [] \<or> components = []")
  case True
  then show ?thesis
  proof
    assume "data = []" then show ?thesis by (simp add: preprocess_data_with_def)
  next
    assume c: "components = []"
    have "{i. i < length data \<and> valid_mask_with std data [] ! i} = {i. i < length data}"
      by (auto simp: valid_mask_with_nth)
    then show ?thesis
      by (simp add: preprocess_data_with_def c nths_all)
  qed
next
  case False
  then show ?thesis
    by (simp add: preprocess_data_with_def boolean_select_nths[OF length_valid_mask_with])
qed

lemma preprocess_data_nths:
  "preprocess_data data components
   = nths data {i. i < length data \<and> valid_mask data components ! i}"
  unfolding preprocess_data_def valid_mask_def by (rule preprocess_data_with_nths)






lemma zscore_missing:
  assumes "i < length x" "x ! i = None"
  shows "zscore x ! i = None"
  using assms by (simp add: zscore_def Let_def)

lemma present_append: "present (xs @ ys) = present xs @ present ys"
  by (induction xs rule: present.induct) simp_all

lemma present_without_missing:
  assumes "i < length x" "x ! i = None"
  shows "present x = present (take i x @ drop (Suc i) x)"
proof -
  have "x = take i x @ [None] @ drop (Suc i) x"
    using assms id_take_nth_drop[of i x] by simp
  then have "present x = present (take i x @ [None] @ drop (Suc i) x)" by simp
  also have "\<dots> = present (take i x @ drop (Suc i) x)"
    by (simp add: present_append)
  finally show ?thesis .
qed

lemma column_without: "column c (take i data @ drop (Suc i) data)
                       = take i (column c data) @ drop (Suc i) (column c data)"
  by (simp add: column_def take_map drop_map)

text \<open>
  C10. In a batch where a selected component has nonzero variance, a sample whose value
  for that component is missing has a NaN standard score there, the comparison with 2.5
  is false for it, and the mask excludes the sample from the output. The component is
  scored (not replaced by zeros), and its mean and standard deviation are those of the
  batch without that sample's entry.
\<close>

theorem missing_value_sample_dropped:
  assumes i: "i < length data" and c: "c \<in> set components"
    and spread: "variance (column c data) \<noteq> 0"
    and missing: "cell (data ! i) c = None"
  shows "zscore (column c data) ! i = None
       \<and> \<not> score_ok (zscore (column c data) ! i)
       \<and> \<not> valid_mask data components ! i
       \<and> preprocess_data data components
           = nths data {j. j < length data \<and> j \<noteq> i \<and> valid_mask data components ! j}
       \<and> zscore (column c data) = z_score_column (column c data)
       \<and> present (column c data) = present (column c (take i data @ drop (Suc i) data))"
proof -
  have ci: "i < length (column c data)" "column c data ! i = None"
    using i missing by (simp_all add: column_def)
  have z: "zscore (column c data) ! i = None" by (rule zscore_missing[OF ci])
  have nok: "\<not> score_ok (zscore (column c data) ! i)" by (simp add: z score_ok_def)
  have "\<not> score_ok (z_score_column (column c data) ! i)"
    using nok by (simp add: z_score_column_spread[OF spread])
  then have nm: "\<not> valid_mask data components ! i"
    using c by (auto simp: valid_mask_nth[OF i])
  have "{j. j < length data \<and> valid_mask data components ! j}
        = {j. j < length data \<and> j \<noteq> i \<and> valid_mask data components ! j}"
    using nm by auto
  then have out: "preprocess_data data components
           = nths data {j. j < length data \<and> j \<noteq> i \<and> valid_mask data components ! j}"
    by (simp only: preprocess_data_nths)
  have zc: "zscore (column c data) = z_score_column (column c data)"
    by (simp add: z_score_column_spread[OF spread])
  have pr: "present (column c data) = present (column c (take i data @ drop (Suc i) data))"
    unfolding column_without by (rule present_without_missing[OF ci])
  show ?thesis by (intro conjI z nok nm out zc pr)
qed

theorem missing_value_sample_dropped_witness:
  "(let data = map (\<lambda>(t, x). \<lparr>DATETIME = t, cell = (\<lambda>_. None)(''X'' := x)\<rparr>)
                 [(0, Some 1), (60, None), (120, Some 3)]
    in (1::nat) < length data \<and> ''X'' \<in> set [''X'']
       \<and> variance (column ''X'' data) \<noteq> 0
       \<and> cell (data ! 1) ''X'' = None
       \<and> zscore (column ''X'' data) ! 1 = None
       \<and> \<not> score_ok (zscore (column ''X'' data) ! 1)
       \<and> \<not> valid_mask data [''X''] ! 1
       \<and> preprocess_data data [''X'']
           = nths data {j. j < length data \<and> j \<noteq> 1 \<and> valid_mask data [''X''] ! j}
       \<and> zscore (column ''X'' data) = z_score_column (column ''X'' data)
       \<and> present (column ''X'' data) = present (column ''X'' (take 1 data @ drop (Suc 1) data))
       \<and> preprocess_data data [''X'']
           = map (\<lambda>(t, x). \<lparr>DATETIME = t, cell = (\<lambda>_. None)(''X'' := x)\<rparr>)
                 [(0, Some 1), (120, Some 3)])"
proof -
  let ?data = "map (\<lambda>(t, x). \<lparr>DATETIME = t, cell = (\<lambda>_. None)(''X'' := x)\<rparr>)
                 [(0, Some 1), (60, None), (120, Some (3::real))]"
  have h1: "(1::nat) < length ?data" by simp
  have h2: "''X'' \<in> set [''X'']" by simp
  have h3: "variance (column ''X'' ?data) \<noteq> 0"
    by (simp add: variance_def column_def sum_sq_dev_def mean_def)
  have h4: "cell (?data ! 1) ''X'' = None" by simp
  have ev: "preprocess_data ?data [''X'']
           = map (\<lambda>(t, x). \<lparr>DATETIME = t, cell = (\<lambda>_. None)(''X'' := x)\<rparr>)
                 [(0, Some 1), (120, Some 3)]"
    by (simp add: preprocess_data_eq valid_mask_eq column_def z_score_column_eq series_std_def
        sum_sq_dev_def mean_def zscore_def zeros_like_def score_ok_def fgt_def
        upt_rec[of _ "numeral _"] upt_rec[of 0] Let_def)
  note th = missing_value_sample_dropped[OF h1 h2 h3 h4]
  show ?thesis
    unfolding Let_def
    by (intro conjI h1 h2 h3 h4 ev th[THEN conjunct1] th[THEN conjunct2, THEN conjunct1]
        th[THEN conjunct2, THEN conjunct2, THEN conjunct1]
        th[THEN conjunct2, THEN conjunct2, THEN conjunct2, THEN conjunct1]
        th[THEN conjunct2, THEN conjunct2, THEN conjunct2, THEN conjunct2, THEN conjunct1]
        th[THEN conjunct2, THEN conjunct2, THEN conjunct2, THEN conjunct2, THEN conjunct2])
qed

text \<open>
  When the deviation the guard reads is not greater than 0, the column's scores are zero
  for every sample, a sample with a missing value included, and the component rejects
  nothing: mask and output are those of the selection without it.
\<close>

lemma component_neutral_when_guard_fails:
  assumes flat: "\<not> fgt (std (column c data)) (Some 0)"
  shows "z_score_column_with std (column c data) = map (\<lambda>_. Some 0) data
       \<and> valid_mask_with std data components = valid_mask_with std data (removeAll c components)
       \<and> preprocess_data_with std data components
           = preprocess_data_with std data (removeAll c components)"
proof -
  have zc: "z_score_column_with std (column c data) = map (\<lambda>_. Some 0) data"
    using flat by (simp add: z_score_column_with_def zeros_like_def column_def)
  have vm: "valid_mask_with std data components = valid_mask_with std data (removeAll c components)"
  proof (rule nth_equalityI)
    show "length (valid_mask_with std data components)
          = length (valid_mask_with std data (removeAll c components))"
      by (simp add: length_valid_mask_with)
    fix i assume "i < length (valid_mask_with std data components)"
    then have i: "i < length data" by (simp add: length_valid_mask_with)
    have "score_ok (z_score_column_with std (column c data) ! i)"
      using i by (simp add: zc score_ok_def)
    then show "valid_mask_with std data components ! i
               = valid_mask_with std data (removeAll c components) ! i"
      by (auto simp: valid_mask_with_nth[OF i])
  qed
  have pp: "preprocess_data_with std data components
            = preprocess_data_with std data (removeAll c components)"
    by (simp only: preprocess_data_with_nths vm)
  show ?thesis by (intro conjI zc vm pp)
qed

text \<open>
  When the guard passes on a column without spread, because the computed deviation is
  positive where the exact one is 0, \<open>zscore\<close> returns NaN for every row of the column
  and the filter drops every row of the batch.
\<close>

lemma guard_passed_without_spread:
  assumes flat: "variance (column c data) = 0"
    and passed: "fgt (std (column c data)) (Some 0)"
    and c: "c \<in> set components"
  shows "valid_mask_with std data components = map (\<lambda>_. False) data
       \<and> preprocess_data_with std data components = []"
proof -
  have zc: "z_score_column_with std (column c data) = map (\<lambda>_. None) (column c data)"
    using passed by (simp add: z_score_column_with_def zscore_flat[OF flat])
  have vm: "valid_mask_with std data components = map (\<lambda>_. False) data"
  proof (rule nth_equalityI)
    show "length (valid_mask_with std data components) = length (map (\<lambda>_. False) data)"
      by (simp add: length_valid_mask_with)
    fix i assume "i < length (valid_mask_with std data components)"
    then have i: "i < length data" by (simp add: length_valid_mask_with)
    have "\<not> score_ok (z_score_column_with std (column c data) ! i)"
      using i by (simp add: zc score_ok_def length_column)
    then have "\<not> valid_mask_with std data components ! i"
      using c by (auto simp: valid_mask_with_nth[OF i])
    then show "valid_mask_with std data components ! i = map (\<lambda>_. False) data ! i"
      using i by simp
  qed
  have "{i. i < length data \<and> valid_mask_with std data components ! i} = {}"
    by (auto simp: vm)
  then have "preprocess_data_with std data components = []"
    by (simp only: preprocess_data_with_nths nths_empty)
  with vm show ?thesis by (rule conjI)
qed

lemma sqrt_tiny: "sqrt (9 / 100000000000000) = 3 / 10000000"
  by (rule real_sqrt_unique) (simp_all add: power2_eq_square)

lemma near_zero_mean: "mean [0, 0, 0, 0, 0, 0, 0, 0, 0, 1 / 1000000] = 1 / 10000000"
  by (simp add: mean_def)

lemma near_zero_sum_sq_dev:
  "sum_sq_dev [0, 0, 0, 0, 0, 0, 0, 0, 0, 1 / 1000000] = 9 / 10000000000000"
  by (simp add: sum_sq_dev_def near_zero_mean power2_eq_square)

lemma near_zero_scores:
  "z_score_column [Some 0, Some 0, Some 0, Some 0, Some 0, Some 0, Some 0, Some 0, Some 0,
                   Some (1 / 1000000)]
   = [Some (- 1 / 3), Some (- 1 / 3), Some (- 1 / 3), Some (- 1 / 3), Some (- 1 / 3),
      Some (- 1 / 3), Some (- 1 / 3), Some (- 1 / 3), Some (- 1 / 3), Some 3]"
  by (simp add: z_score_column_eq series_std_def zscore_def fgt_def near_zero_mean
      near_zero_sum_sq_dev sqrt_tiny Let_def)

text \<open>
  The guard has no tolerance: ten samples whose X values are nine times 0 and once
  0.000001 have variance 0.00000000000009, and the filter scores the column and drops
  the tenth sample on account of it (its score is 3), where selecting no component keeps
  all ten.
\<close>

lemma near_zero_variance_is_scored:
  "variance (column ''X'' (map (\<lambda>(t, x). \<lparr>DATETIME = t, cell = (\<lambda>_. None)(''X'' := Some x)\<rparr>)
      [(0, 0), (60, 0), (120, 0), (180, 0), (240, 0), (300, 0), (360, 0), (420, 0), (480, 0),
       (540, 1 / 1000000)])) = 9 / 100000000000000
   \<and> preprocess_data (map (\<lambda>(t, x). \<lparr>DATETIME = t, cell = (\<lambda>_. None)(''X'' := Some x)\<rparr>)
      [(0, 0), (60, 0), (120, 0), (180, 0), (240, 0), (300, 0), (360, 0), (420, 0), (480, 0),
       (540, 1 / 1000000)]) [''X'']
     = map (\<lambda>(t, x). \<lparr>DATETIME = t, cell = (\<lambda>_. None)(''X'' := Some x)\<rparr>)
      [(0, 0), (60, 0), (120, 0), (180, 0), (240, 0), (300, 0), (360, 0), (420, 0), (480, 0)]
   \<and> preprocess_data (map (\<lambda>(t, x). \<lparr>DATETIME = t, cell = (\<lambda>_. None)(''X'' := Some x)\<rparr>)
      [(0, 0), (60, 0), (120, 0), (180, 0), (240, 0), (300, 0), (360, 0), (420, 0), (480, 0),
       (540, 1 / 1000000)]) []
     = map (\<lambda>(t, x). \<lparr>DATETIME = t, cell = (\<lambda>_. None)(''X'' := Some x)\<rparr>)
      [(0, 0), (60, 0), (120, 0), (180, 0), (240, 0), (300, 0), (360, 0), (420, 0), (480, 0),
       (540, 1 / 1000000)]"
proof -
  let ?data = "map (\<lambda>(t, x). \<lparr>DATETIME = t, cell = (\<lambda>_. None)(''X'' := Some x)\<rparr>)
      [(0, 0), (60, 0), (120, 0), (180, 0), (240, 0), (300, 0), (360, 0), (420, 0), (480, 0),
       (540, 1 / 1000000 :: real)]"
  have col: "column ''X'' ?data
     = [Some 0, Some 0, Some 0, Some 0, Some 0, Some 0, Some 0, Some 0, Some 0, Some (1 / 1000000)]"
    by (simp add: column_def)
  have v: "variance (column ''X'' ?data) = 9 / 100000000000000"
    unfolding col by (simp add: variance_def near_zero_sum_sq_dev)
  have m: "valid_mask ?data [''X'']
     = [True, True, True, True, True, True, True, True, True, False]"
    by (simp add: valid_mask_eq col[simplified] near_zero_scores score_ok_def
        upt_rec[of _ "numeral _"] upt_rec[of 0])
  have keep: "preprocess_data ?data [''X'']
     = map (\<lambda>(t, x). \<lparr>DATETIME = t, cell = (\<lambda>_. None)(''X'' := Some x)\<rparr>)
      [(0, 0), (60, 0), (120, 0), (180, 0), (240, 0), (300, 0), (360, 0), (420, 0), (480, 0)]"
    by (simp add: preprocess_data_eq m[simplified])
  have none: "preprocess_data ?data [] = ?data"
    by (simp add: preprocess_data_eq)
  show ?thesis by (intro conjI v keep none)
qed

text \<open>
  C8. Ten samples whose X value is 36000.1 throughout: a column of zero variance. The
  deviation pandas computes for it in float64 is 7.67e-12, which is greater than 0, so
  the guard passes, every score is NaN and the filter drops all ten rows on account of
  the component, where the guard decided exactly would have kept all ten.
\<close>

theorem constant_column_every_row_dropped:
  "variance (column ''X'' (map (\<lambda>t. \<lparr>DATETIME = t, cell = (\<lambda>_. None)(''X'' := Some 36000.1)\<rparr>)
      [0, 60, 120, 180, 240, 300, 360, 420, 480, 540])) = 0
   \<and> preprocess_data_with (\<lambda>x. Some (767 / 100000000000000))
       (map (\<lambda>t. \<lparr>DATETIME = t, cell = (\<lambda>_. None)(''X'' := Some 36000.1)\<rparr>)
          [0, 60, 120, 180, 240, 300, 360, 420, 480, 540]) [''X''] = []
   \<and> preprocess_data
       (map (\<lambda>t. \<lparr>DATETIME = t, cell = (\<lambda>_. None)(''X'' := Some 36000.1)\<rparr>)
          [0, 60, 120, 180, 240, 300, 360, 420, 480, 540]) [''X'']
     = map (\<lambda>t. \<lparr>DATETIME = t, cell = (\<lambda>_. None)(''X'' := Some 36000.1)\<rparr>)
          [0, 60, 120, 180, 240, 300, 360, 420, 480, 540]"
proof -
  let ?data = "map (\<lambda>t. \<lparr>DATETIME = t, cell = (\<lambda>_. None)(''X'' := Some (36000.1::real))\<rparr>)
      [0, 60, 120, 180, 240, 300, 360, 420, 480, 540]"
  have v: "variance (column ''X'' ?data) = 0"
    by (simp add: variance_def column_def sum_sq_dev_def mean_def)
  have p: "fgt ((\<lambda>x. Some (767 / 100000000000000)) (column ''X'' ?data)) (Some 0)"
    by (simp add: fgt_def)
  have c: "''X'' \<in> set [''X'']" by simp
  have dropped: "preprocess_data_with (\<lambda>x. Some (767 / 100000000000000)) ?data [''X''] = []"
    by (rule guard_passed_without_spread[OF v p c, THEN conjunct2])
  have g: "\<not> fgt (series_std (column ''X'' ?data)) (Some 0)"
    using v by (simp add: series_std_pos_iff)
  have "preprocess_data ?data [''X''] = preprocess_data_with series_std ?data []"
    using g component_neutral_when_guard_fails[of series_std "''X''" ?data "[''X'']"]
    by (simp add: preprocess_data_def)
  then have kept: "preprocess_data ?data [''X''] = ?data"
    by (simp add: preprocess_data_with_def)
  show ?thesis by (intro conjI v dropped kept)
qed

text \<open>
  C9. On an empty input the quality filter returns the empty batch, and the aggregator
  with the quantizer returns empty K-value and timestamp sequences; neither raises.
\<close>

theorem empty_input_empty_result:
  "preprocess_data [] components = []
   \<and> calculate_k_index [] minute_comp_x minute_comp_y k9 = Inr ([], [])"
  by (simp add: preprocess_data_eq calculate_k_index_def)

section \<open>Properties of one cycle\<close>

lemma sqrt_quarter: "sqrt (1 / 4) = 1 / 2"
  by (rule real_sqrt_unique) (simp_all add: power2_eq_square)

lemma sqrt_25: "sqrt 25 = 5"
  by (rule real_sqrt_unique) simp_all

text \<open>The rows the labelled filter keeps are the rows \<open>preprocess_data\<close> keeps.\<close>

lemma preprocess_frame_rows:
  "map snd (preprocess_frame_with std frame components)
   = preprocess_data_with std (map snd frame) components"
proof -
  have "map snd (map fst (filter snd (zip frame m))) = map fst (filter snd (zip (map snd frame) m))"
    for m :: "bool list"
  proof (induction frame arbitrary: m)
    case Nil
    then show ?case by simp
  next
    case (Cons r rs)
    then show ?case by (cases m) simp_all
  qed
  then show ?thesis
    by (simp add: preprocess_frame_with_def preprocess_data_with_def)
qed

lemma two_day_frame:
  "preprocess_frame_with series_std
     (labelled (map (\<lambda>(t, x, y, z). \<lparr>DATETIME = t, cell = (\<lambda>_. None)(''X'' := Some x, ''Y'' := Some y, ''Z'' := Some z)\<rparr>)
        [(1704153600, 1, 3, 5), (1704067200, 2, 4, 6)])) [''X'', ''Y'', ''Z'']
   = labelled (map (\<lambda>(t, x, y, z). \<lparr>DATETIME = t, cell = (\<lambda>_. None)(''X'' := Some x, ''Y'' := Some y, ''Z'' := Some z)\<rparr>)
        [(1704153600, 1, 3, 5), (1704067200, 2, 4, 6)])"
  by (simp add: preprocess_frame_with_def labelled_def valid_mask_with_def column_def
      z_score_column_with_def series_std_def sum_sq_dev_def mean_def zscore_def zeros_like_def
      score_ok_def fgt_def sqrt_quarter power2_eq_square upt_rec[of _ "numeral _"] upt_rec[of 0] Let_def)

text \<open>
  C2. One cycle of \<open>test.py\<close> on two samples a day apart, the later day's file read
  first: the filter keeps both, the sort puts the earlier sample first and leaves it the
  label 1, and the anchor is taken from the row labelled 0, the later sample. The anchor
  is midnight of the later day and the block indices are -8 and 0, where midnight of the
  earliest sample's day gives 0 and 8.
\<close>

theorem anchor_taken_from_label_zero:
  "time_to_float (sort_key (\<lambda>(label, row). DATETIME row)
     (preprocess_frame_with series_std
        (labelled (map (\<lambda>(t, x, y, z). \<lparr>DATETIME = t, cell = (\<lambda>_. None)(''X'' := Some x, ''Y'' := Some y, ''Z'' := Some z)\<rparr>)
           [(1704153600, 1, 3, 5), (1704067200, 2, 4, 6)])) [''X'', ''Y'', ''Z'']))
     = [(1, 1704067200), (0, 1704153600)]
   \<and> day_seconds_start_utc [(1, 1704067200), (0, 1704153600)] = Inr 1704153600
   \<and> start_of_day_utc (Min (set (map snd [(1, 1704067200), (0, 1704153600)]))) = 1704067200
   \<and> hour_blocks 1704153600 (map snd [(1, 1704067200), (0, 1704153600)]) = [- 8, 0]
   \<and> map (\<lambda>t. \<lfloor>real_of_int (t - 1704067200) / 10800\<rfloor>) (map snd [(1, 1704067200), (0, 1704153600)])
       = [0, 8]"
proof -
  have s: "time_to_float (sort_key (\<lambda>(label, row). DATETIME row)
     (preprocess_frame_with series_std
        (labelled (map (\<lambda>(t, x, y, z). \<lparr>DATETIME = t, cell = (\<lambda>_. None)(''X'' := Some x, ''Y'' := Some y, ''Z'' := Some z)\<rparr>)
           [(1704153600, 1, 3, 5), (1704067200, 2, 4, 6)])) [''X'', ''Y'', ''Z'']))
     = [(1, 1704067200), (0, 1704153600)]"
    unfolding two_day_frame by (simp add: labelled_def time_to_float_def)
  have d: "day_seconds_start_utc [(1, 1704067200), (0, 1704153600)] = Inr 1704153600"
    by (simp add: day_seconds_start_utc_def series_at_label_def start_of_day_utc_def)
  have e: "start_of_day_utc (Min (set (map snd [(1, 1704067200), (0, 1704153600)]))) = 1704067200"
    by (simp add: start_of_day_utc_def)
  have b: "hour_blocks 1704153600 (map snd [(1, 1704067200), (0, 1704153600)]) = [- 8, 0]"
    by (simp add: hour_blocks_def)
  have f: "map (\<lambda>t. \<lfloor>real_of_int (t - 1704067200) / 10800\<rfloor>) (map snd [(1, 1704067200), (0, 1704153600)])
       = [0, 8]"
    by (simp add: floor_div_10800 del: of_int_diff)
  show ?thesis by (intro conjI s d e b f)
qed

lemma first_row_dropped_frame:
  "preprocess_frame_with series_std
     (labelled (map (\<lambda>(t, x). \<lparr>DATETIME = t, cell = (\<lambda>_. None)(''X'' := x, ''Y'' := Some 20000, ''Z'' := Some 30000)\<rparr>)
        [(1704153600, None), (1704153660, Some 36001), (1704164400, Some 36002)])) [''X'', ''Y'', ''Z'']
   = [(1, \<lparr>DATETIME = 1704153660, cell = (\<lambda>_. None)(''X'' := Some 36001, ''Y'' := Some 20000, ''Z'' := Some 30000)\<rparr>),
      (2, \<lparr>DATETIME = 1704164400, cell = (\<lambda>_. None)(''X'' := Some 36002, ''Y'' := Some 20000, ''Z'' := Some 30000)\<rparr>)]"
  by (simp add: preprocess_frame_with_def labelled_def valid_mask_with_def column_def
      z_score_column_with_def series_std_def sum_sq_dev_def mean_def zscore_def zeros_like_def
      score_ok_def fgt_def sqrt_quarter power2_eq_square upt_rec[of _ "numeral _"] upt_rec[of 0] Let_def)

lemma outage_frame:
  "preprocess_frame_with series_std
     (labelled (map (\<lambda>(t, y). \<lparr>DATETIME = t, cell = (\<lambda>_. None)(''Y'' := Some y, ''Z'' := Some 30000)\<rparr>)
        [(1704153600, 100), (1704153660, 110)])) [''X'', ''Y'', ''Z'']
   = [(0, \<lparr>DATETIME = 1704153600, cell = (\<lambda>_. None)(''Y'' := Some 100, ''Z'' := Some 30000)\<rparr>),
      (1, \<lparr>DATETIME = 1704153660, cell = (\<lambda>_. None)(''Y'' := Some 110, ''Z'' := Some 30000)\<rparr>)]"
  by (simp add: preprocess_frame_with_def labelled_def valid_mask_with_def column_def
      z_score_column_with_def series_std_def sum_sq_dev_def mean_def zscore_def zeros_like_def
      score_ok_def fgt_def sqrt_25 power2_eq_square upt_rec[of _ "numeral _"] upt_rec[of 0] Let_def)

text \<open>
  C3. One cycle on three samples of which the first has a missing X value: the filter
  drops it, no row labelled 0 is left, and the cycle raises KeyError in both scripts
  instead of emitting the two one-sample windows with K-index 0.25. One cycle on two
  samples of one window whose X values are both missing (Y ranges over 10): the range of
  X is NaN, \<open>max\<close> returns it, and the window reports K-index 9, not the K-index 2 of the
  greater range.
\<close>

theorem window_statistic_failures:
  "k_index_cycle_test series_std
     (map (\<lambda>(t, x). \<lparr>DATETIME = t, cell = (\<lambda>_. None)(''X'' := x, ''Y'' := Some 20000, ''Z'' := Some 30000)\<rparr>)
        [(1704153600, None), (1704153660, Some 36001), (1704164400, Some 36002)])
     [''X'', ''Y'', ''Z''] 500 = Inl KeyError
   \<and> k_index_cycle_ENT_Kindex series_std
     (map (\<lambda>(t, x). \<lparr>DATETIME = t, cell = (\<lambda>_. None)(''X'' := x, ''Y'' := Some 20000, ''Z'' := Some 30000)\<rparr>)
        [(1704153600, None), (1704153660, Some 36001), (1704164400, Some 36002)])
     [''X'', ''Y'', ''Z''] 500 = Inl KeyError
   \<and> k_index_cycle_test series_std
     (map (\<lambda>(t, y). \<lparr>DATETIME = t, cell = (\<lambda>_. None)(''Y'' := Some y, ''Z'' := Some 30000)\<rparr>)
        [(1704153600, 100), (1704153660, 110)])
     [''X'', ''Y'', ''Z''] 500 = Inr ([9], [1704159000])
   \<and> k_value 500 (Some 10) = 2"
proof -
  have a: "k_index_cycle_test series_std
     (map (\<lambda>(t, x). \<lparr>DATETIME = t, cell = (\<lambda>_. None)(''X'' := x, ''Y'' := Some 20000, ''Z'' := Some 30000)\<rparr>)
        [(1704153600, None), (1704153660, Some 36001), (1704164400, Some 36002)])
     [''X'', ''Y'', ''Z''] 500 = Inl KeyError"
    unfolding k_index_cycle_test_def Let_def first_row_dropped_frame
    by (simp add: time_to_float_def calculate_k_index_def window_statistics_def
        day_seconds_start_utc_def series_at_label_def)
  have b: "k_index_cycle_ENT_Kindex series_std
     (map (\<lambda>(t, x). \<lparr>DATETIME = t, cell = (\<lambda>_. None)(''X'' := x, ''Y'' := Some 20000, ''Z'' := Some 30000)\<rparr>)
        [(1704153600, None), (1704153660, Some 36001), (1704164400, Some 36002)])
     [''X'', ''Y'', ''Z''] 500 = Inl KeyError"
    unfolding k_index_cycle_ENT_Kindex_def Let_def first_row_dropped_frame
    by (simp add: time_to_float_def calculate_k_index_def window_statistics_def
        day_seconds_start_utc_def series_at_label_def)
  have c: "k_index_cycle_test series_std
     (map (\<lambda>(t, y). \<lparr>DATETIME = t, cell = (\<lambda>_. None)(''Y'' := Some y, ''Z'' := Some 30000)\<rparr>)
        [(1704153600, 100), (1704153660, 110)])
     [''X'', ''Y'', ''Z''] 500 = Inr ([9], [1704159000])"
    unfolding k_index_cycle_test_def Let_def outage_frame
    by (simp add: time_to_float_def calculate_k_index_def window_statistics_def
        day_seconds_start_utc_def series_at_label_def start_of_day_utc_def hour_blocks_def
        np_unique_def variation_def bool_index_def np_ptp_def py_max_def fgt_def k_value_def
        searchsorted_right_def scaled_thresholds_def niemegk_thresholds_def clip_def)
  have d: "k_value 500 (Some 10) = 2"
    by (simp add: k_value_def searchsorted_right_def scaled_thresholds_def
        niemegk_thresholds_def clip_def)
  show ?thesis by (intro conjI a b c d)
qed

section \<open>Properties of the record parser\<close>

lemma decode_numeric_column:
  assumes "\<forall>t\<in>set tokens. is_number t"
  shows "map to_numeric_coerce (convert_column na_strings tokens)
         = map (\<lambda>t. if t \<in> set na_strings then None
                     else case to_float t of
                            None \<Rightarrow> None
                          | Some v \<Rightarrow> if v \<in> set na_floats then None else Some v) tokens"
proof -
  have "list_all (\<lambda>t. t \<in> set na_strings \<or> is_number t) tokens"
    using assms by (simp add: list_all_iff)
  then show ?thesis
    by (simp add: convert_column_def to_numeric_coerce_def comp_def split: option.splits)
qed

lemma decoded_not_sentinel:
  "(if t \<in> set na_strings then None
    else case to_float t of
           None \<Rightarrow> None
         | Some v \<Rightarrow> if v \<in> set na_floats then None else Some v) \<noteq> Some s"
  if "s \<in> set na_floats"
  using that by (auto split: option.splits)

text \<open>
  C7. In a column whose tokens all read as numbers, no decoded value equals 99999.00 or
  99999.9, in either script: a token that reads as one of the two sentinels decodes to
  a missing value, one entry per token.
\<close>

theorem sentinel_tokens_decode_missing:
  assumes wf: "\<forall>t\<in>set tokens. is_number t"
  shows "(\<forall>v\<in>set (component_column_ENT_Kindex tokens). v \<noteq> Some 99999.00 \<and> v \<noteq> Some 99999.9)
       \<and> (\<forall>v\<in>set (component_column_test tokens). v \<noteq> Some 99999.00 \<and> v \<noteq> Some 99999.9)
       \<and> length (component_column_ENT_Kindex tokens) = length tokens
       \<and> length (component_column_test tokens) = length tokens
       \<and> (\<forall>i<length tokens.
             to_float (tokens ! i) = Some 99999.00 \<or> to_float (tokens ! i) = Some 99999.9 \<longrightarrow>
               component_column_ENT_Kindex tokens ! i = None
             \<and> component_column_test tokens ! i = None)"
proof -
  have s1: "99999.00 \<in> set na_floats" and s2: "99999.9 \<in> set na_floats"
    by (simp_all add: na_floats_def)
  have e: "component_column_ENT_Kindex tokens
           = map (\<lambda>t. if t \<in> set na_strings_ENT_Kindex then None
                     else case to_float t of
                            None \<Rightarrow> None
                          | Some v \<Rightarrow> if v \<in> set na_floats then None else Some v) tokens"
    unfolding component_column_ENT_Kindex_def by (rule decode_numeric_column[OF wf])
  have t: "component_column_test tokens
           = map (\<lambda>t. if t \<in> set na_strings_test then None
                     else case to_float t of
                            None \<Rightarrow> None
                          | Some v \<Rightarrow> if v \<in> set na_floats then None else Some v) tokens"
    unfolding component_column_test_def by (rule decode_numeric_column[OF wf])
  have c1: "\<forall>v\<in>set (component_column_ENT_Kindex tokens). v \<noteq> Some 99999.00 \<and> v \<noteq> Some 99999.9"
  proof
    fix v assume "v \<in> set (component_column_ENT_Kindex tokens)"
    then obtain t where "v = (if t \<in> set na_strings_ENT_Kindex then None
                     else case to_float t of
                            None \<Rightarrow> None
                          | Some v \<Rightarrow> if v \<in> set na_floats then None else Some v)"
      unfolding e set_map by blast
    then show "v \<noteq> Some 99999.00 \<and> v \<noteq> Some 99999.9"
      using decoded_not_sentinel[OF s1, of t na_strings_ENT_Kindex]
        decoded_not_sentinel[OF s2, of t na_strings_ENT_Kindex] by (simp only:) blast
  qed
  have c2: "\<forall>v\<in>set (component_column_test tokens). v \<noteq> Some 99999.00 \<and> v \<noteq> Some 99999.9"
  proof
    fix v assume "v \<in> set (component_column_test tokens)"
    then obtain t where "v = (if t \<in> set na_strings_test then None
                     else case to_float t of
                            None \<Rightarrow> None
                          | Some v \<Rightarrow> if v \<in> set na_floats then None else Some v)"
      unfolding t set_map by blast
    then show "v \<noteq> Some 99999.00 \<and> v \<noteq> Some 99999.9"
      using decoded_not_sentinel[OF s1, of t na_strings_test]
        decoded_not_sentinel[OF s2, of t na_strings_test] by (simp only:) blast
  qed
  have c3: "length (component_column_ENT_Kindex tokens) = length tokens" by (simp add: e)
  have c4: "length (component_column_test tokens) = length tokens" by (simp add: t)
  have c5: "\<forall>i<length tokens.
             to_float (tokens ! i) = Some 99999.00 \<or> to_float (tokens ! i) = Some 99999.9 \<longrightarrow>
               component_column_ENT_Kindex tokens ! i = None
             \<and> component_column_test tokens ! i = None"
    unfolding e t using s1 s2 by auto
  show ?thesis by (intro conjI c1 c2 c3 c4 c5)
qed

lemma to_float_examples:
  "to_float ''36000.10'' = Some 36000.1" "to_float ''99999.00'' = Some 99999"
  "to_float ''99999.9'' = Some 99999.9" "to_float ''-12.50'' = Some (- 12.5)"
  "to_float ''abc'' = None"
  by (simp_all add: to_float_def unsigned_decimal_def is_digit_def digits_value_def)

theorem sentinel_tokens_decode_missing_witness:
  "is_number ''36000.10'' \<and> is_number ''99999.00'' \<and> is_number ''99999.9''
   \<and> is_number ''-12.50''
   \<and> Some 99999.00 \<notin> set (component_column_ENT_Kindex [''36000.10'', ''99999.00'', ''99999.9'', ''-12.50''])
   \<and> Some 99999.9 \<notin> set (component_column_ENT_Kindex [''36000.10'', ''99999.00'', ''99999.9'', ''-12.50''])
   \<and> Some 99999.00 \<notin> set (component_column_test [''36000.10'', ''99999.00'', ''99999.9'', ''-12.50''])
   \<and> Some 99999.9 \<notin> set (component_column_test [''36000.10'', ''99999.00'', ''99999.9'', ''-12.50''])
   \<and> component_column_ENT_Kindex [''36000.10'', ''99999.00'', ''99999.9'', ''-12.50'']
        = [Some 36000.1, None, None, Some (- 12.5)]
   \<and> component_column_test [''36000.10'', ''99999.00'', ''99999.9'', ''-12.50'']
        = [Some 36000.1, None, None, Some (- 12.5)]"
proof -
  have n: "is_number ''36000.10''" "is_number ''99999.00''" "is_number ''99999.9''"
    "is_number ''-12.50''"
    by (simp_all add: is_number_def to_float_examples)
  then have h: "\<forall>t\<in>set [''36000.10'', ''99999.00'', ''99999.9'', ''-12.50'']. is_number t"
    by simp
  note th = sentinel_tokens_decode_missing[OF h]
  have a1: "Some 99999.00 \<notin> set (component_column_ENT_Kindex [''36000.10'', ''99999.00'', ''99999.9'', ''-12.50''])"
    and a2: "Some 99999.9 \<notin> set (component_column_ENT_Kindex [''36000.10'', ''99999.00'', ''99999.9'', ''-12.50''])"
    using th[THEN conjunct1] by blast+
  have b1: "Some 99999.00 \<notin> set (component_column_test [''36000.10'', ''99999.00'', ''99999.9'', ''-12.50''])"
    and b2: "Some 99999.9 \<notin> set (component_column_test [''36000.10'', ''99999.00'', ''99999.9'', ''-12.50''])"
    using th[THEN conjunct2, THEN conjunct1] by blast+
  have e1: "component_column_ENT_Kindex [''36000.10'', ''99999.00'', ''99999.9'', ''-12.50'']
        = [Some 36000.1, None, None, Some (- 12.5)]"
    by (simp add: component_column_ENT_Kindex_def convert_column_def to_numeric_coerce_def
        na_strings_ENT_Kindex_def default_na_strings_def na_floats_def is_number_def
        to_float_examples)
  have e2: "component_column_test [''36000.10'', ''99999.00'', ''99999.9'', ''-12.50'']
        = [Some 36000.1, None, None, Some (- 12.5)]"
    by (simp add: component_column_test_def convert_column_def to_numeric_coerce_def
        na_strings_test_def default_na_strings_def na_floats_def is_number_def
        to_float_examples)
  show ?thesis
    by (intro conjI n a1 a2 b1 b2 e1 e2)
qed

text \<open>
  The hypothesis on the tokens matters for \<open>ENT_Kindex.py\<close>: a column with one token
  that is not a number stays a column of strings, where \<open>99999.00\<close> is none of the
  spellings matched as text, and \<open>to_numeric\<close> then reads it as the number.
\<close>

lemma mixed_column_keeps_sentinel:
  "component_column_ENT_Kindex [''99999.00'', ''abc''] = [Some 99999, None]"
  "component_column_test [''99999.00'', ''abc''] = [None, None]"
  by (simp_all add: component_column_ENT_Kindex_def component_column_test_def convert_column_def
      to_numeric_coerce_def na_strings_ENT_Kindex_def na_strings_test_def default_na_strings_def
      na_floats_def is_number_def to_float_examples)

lemma scan_metadata_None_iff:
  assumes "\<forall>line\<in>set ls. startswith line ''Reported'' \<longrightarrow> split line \<noteq> []"
  shows "(scan_metadata rc ls = Inr None)
         = (rc = None \<and> (\<forall>line\<in>set ls. \<not> decodes line))"
  using assms
proof (induction ls arbitrary: rc)
  case Nil
  then show ?case by simp
next
  case (Cons line rest)
  show ?case
  proof (cases "startswith line ''Reported''")
    case False
    then show ?thesis using Cons by (simp add: decodes_def)
  next
    case True
    then obtain tok toks where sp: "split line = tok # toks"
      using Cons.prems by (cases "split line") auto
    show ?thesis
      using True Cons by (auto simp: sp decodes_def Let_def)
  qed
qed

lemma split_from_nonempty: "cur \<noteq> [] \<Longrightarrow> split_from cur cs \<noteq> []"
  by (induction cs arbitrary: cur) auto

lemma reported_line_has_token:
  assumes "startswith line ''Reported''"
  shows "split line \<noteq> []"
proof -
  from assms obtain cs where line: "line = CHR ''R'' # cs"
    by (cases line) (auto simp: startswith_def)
  have "\<not> is_space CHR ''R''" by (simp add: is_space_def)
  then have "split line = split_from [CHR ''R''] cs"
    by (simp add: split_def line)
  then show ?thesis by (simp add: split_from_nonempty)
qed

lemma scan_metadata_total:
  assumes "\<forall>line\<in>set ls. startswith line ''Reported'' \<longrightarrow> split line \<noteq> []"
  shows "\<exists>r. scan_metadata rc ls = Inr r"
  using assms
proof (induction ls arbitrary: rc)
  case Nil
  then show ?case by simp
next
  case (Cons line rest)
  show ?case
  proof (cases "startswith line ''Reported''")
    case False
    then show ?thesis using Cons by simp
  next
    case True
    then obtain tok toks where sp: "split line = tok # toks"
      using Cons.prems by (cases "split line") auto
    show ?thesis
      using True Cons by (simp add: sp Let_def)
  qed
qed

text \<open>
  In \<open>test.py\<close> the failure ``no valid components'' occurs exactly when the header is
  found and none of the three ways resolves: not the generic labels, not the prefixed
  ones, and no line before the header that declares the components.
\<close>

lemma reported_components_test_no_valid_components_iff:
  "(reported_components_test raw = Inl No_valid_components)
   = (\<exists>header_end. find_header (stripped_lines raw) = Some header_end
        \<and> \<not> all_in [''X'', ''Y'', ''Z''] (header_fields_of (stripped_lines raw ! header_end))
        \<and> \<not> all_in [''H'', ''D'', ''Z''] (header_fields_of (stripped_lines raw ! header_end))
        \<and> \<not> all_in [''ENTX'', ''ENTY'', ''ENTZ''] (header_fields_of (stripped_lines raw ! header_end))
        \<and> \<not> all_in [''ENTH'', ''ENTD'', ''ENTZ''] (header_fields_of (stripped_lines raw ! header_end))
        \<and> (\<forall>line\<in>set (take header_end (stripped_lines raw)). \<not> decodes line))"
proof (cases "find_header (stripped_lines raw)")
  case None
  then show ?thesis by (simp add: reported_components_test_def)
next
  case (Some h)
  have tok: "\<forall>line\<in>set (take h (stripped_lines raw)). startswith line ''Reported'' \<longrightarrow> split line \<noteq> []"
    using reported_line_has_token by blast
  note sc = scan_metadata_None_iff[OF tok, of None, simplified]
  show ?thesis
  proof (cases "scan_metadata None (take h (stripped_lines raw))")
    case (Inl e)
    then show ?thesis
      using scan_metadata_total[OF tok, of None] by simp
  next
    case (Inr rc)
    then show ?thesis
      using sc Some by (cases rc) (auto simp: reported_components_test_def Let_def)
  qed
qed

text \<open>
  C6. On a file with the station-prefixed header of the format
  (\<open>ENTX ENTY ENTZ ENTF\<close>), \<open>ENT_Kindex.py\<close> finds no valid components, where
  \<open>test.py\<close> resolves the triplet X, Y, Z by the prefixed labels. On a file of another
  station, whose header resolves neither directly nor by the prefix, the ``Reported''
  line of the format, which ends in a bar of its own, does not decode in \<open>test.py\<close>;
  the same line without the bar does.
\<close>

theorem station_prefixed_header_rejected:
  "reported_components_ENT_Kindex
     ['' Format                 IAGA-2002                                    |'',
      '' Reported               XYZF                                         |'',
      ''DATE       TIME         DOY     ENTX      ENTY      ENTZ      ENTF   |'',
      ''2024-01-01 00:00:00.000 001     36000.10    500.20  10000.30  37360.00'']
   = Inl No_valid_components
   \<and> reported_components_test
     ['' Format                 IAGA-2002                                    |'',
      '' Reported               XYZF                                         |'',
      ''DATE       TIME         DOY     ENTX      ENTY      ENTZ      ENTF   |'',
      ''2024-01-01 00:00:00.000 001     36000.10    500.20  10000.30  37360.00'']
   = Inr [''X'', ''Y'', ''Z'']
   \<and> reported_components_test
     ['' Reported               XYZF                                         |'',
      ''DATE       TIME         DOY     NGKX      NGKY      NGKZ      NGKF   |'']
   = Inl No_valid_components
   \<and> reported_components_test
     ['' Reported               XYZF'',
      ''DATE       TIME         DOY     NGKX      NGKY      NGKZ      NGKF   |'']
   = Inr [''X'', ''Y'', ''Z'']"
  by (simp add: reported_components_ENT_Kindex_def reported_components_test_def stripped_lines_def
      strip_def is_space_def is_header_def startswith_def header_fields_of_def split_def
      all_in_def is_alpha_def upper_def Let_def)

end
